theory Spec2Isabelle
  imports Main "HOL-Library.Char_ord" "HOL-Library.List_Lexorder" "HOL-Library.Multiset"
    "HOL-Library.Word"
begin

unbundle bit_operations_syntax

section \<open>kubectl-graph: the graph of pkg/graph/graph.go\<close>

text \<open>
  A shallow embedding of \<^verbatim>\<open>pkg/graph/graph.go\<close>. Go strings are byte strings
  (\<open>string\<close>), Go maps are partial functions, and the methods that mutate the graph
  through their pointer receiver take the graph and return the updated one. Functions of
  the Go standard library and of k8s.io/apimachinery that the file calls are modelled
  where they are used, each under its Go name.
\<close>

subsection \<open>Strings\<close>

text \<open>\<^verbatim>\<open>strings.Join(elems, sep)\<close>.\<close>

fun Join :: "string list \<Rightarrow> string \<Rightarrow> string" where
  "Join [] sep = []"
| "Join [x] sep = x"
| "Join (x # y # xs) sep = x @ sep @ Join (y # xs) sep"

definition dquote :: char where
  "dquote = CHR 0x22"

text \<open>
  \<^verbatim>\<open>strings.ToLower\<close> on ASCII text. Go lower-cases by Unicode code point, so the
  model is the Go function on strings whose bytes are all below 128 (Kubernetes label keys
  are ASCII); \<open>ascii\<close> says so.
\<close>

definition ToLower_char :: "char \<Rightarrow> char" where
  "ToLower_char c =
     (case map_of (zip ''ABCDEFGHIJKLMNOPQRSTUVWXYZ'' ''abcdefghijklmnopqrstuvwxyz'') c of
        Some l \<Rightarrow> l
      | None \<Rightarrow> c)"

definition ToLower :: "string \<Rightarrow> string" where
  "ToLower s = map ToLower_char s"

definition ascii :: "string \<Rightarrow> bool" where
  "ascii s = (\<forall>c \<in> set s. c < CHR 0x80)"

text \<open>The character class \<^verbatim>\<open>[^a-z0-9]\<close>.\<close>

definition not_a_z0_9 :: "char \<Rightarrow> bool" where
  "not_a_z0_9 c = (\<not> ((CHR ''a'' \<le> c \<and> c \<le> CHR ''z'') \<or> (CHR ''0'' \<le> c \<and> c \<le> CHR ''9'')))"

text \<open>
  \<^verbatim>\<open>regexp.MustCompile(`[class]+`).ReplaceAllString(src, repl)\<close> for a character
  class: scanning from the left, a match starts at the first character of the class and,
  \<^verbatim>\<open>+\<close> being greedy, takes the whole run; the scan goes on behind it.
\<close>

function ReplaceAllString :: "(char \<Rightarrow> bool) \<Rightarrow> string \<Rightarrow> string \<Rightarrow> string" where
  "ReplaceAllString cls [] repl = []"
| "ReplaceAllString cls (c # src) repl =
     (if cls c then repl @ ReplaceAllString cls (dropWhile cls src) repl
      else c # ReplaceAllString cls src repl)"
  by pat_completeness auto
termination
  by (relation "measure (\<lambda>(cls, src, repl). length src)")
     (auto simp: le_imp_less_Suc length_dropWhile_le)

subsection \<open>Data model\<close>

type_synonym UID = string

text \<open>\<^verbatim>\<open>type Labels map[string]string\<close> and \<^verbatim>\<open>type Attributes map[string]string\<close>.
  The length of a map is zero exactly when it has no key.\<close>

type_synonym Labels = "string \<rightharpoonup> string"
type_synonym Attributes = "string \<rightharpoonup> string"

record Node =
  APIVersion :: string
  Kind :: string
  Labels :: Labels
  Name :: string
  Namespace :: string
  UID :: UID

text \<open>The two fields of \<^verbatim>\<open>v1.ObjectReference\<close> that the graph fills in.\<close>

record ObjectReference =
  RefUID :: UID
  RefKind :: string

record Relationship =
  From :: ObjectReference
  Type :: string
  To :: ObjectReference
  Attr :: Attributes

text \<open>
  \<^verbatim>\<open>Nodes\<close> is the three-level map cluster name, namespace, UID; a missing key
  reads as the nil map. \<^verbatim>\<open>Relationships\<close> maps the UID of the source node to the
  slice of its edges, in insertion order. Of \<^verbatim>\<open>clientset\<close> the graph only reads
  \<^verbatim>\<open>RESTClient().Get().URL().Hostname()\<close>, so the field holds that host name.
  The three extractors are parameters of the functions that call them.
\<close>

record Graph =
  Nodes :: "string \<rightharpoonup> (string \<rightharpoonup> (UID \<rightharpoonup> Node))"
  Relationships :: "UID \<rightharpoonup> Relationship list"
  clientset :: string

text \<open>An error value: the one \<^verbatim>\<open>text/template\<close> returns for a name that is not
  registered, or any other error, by its message.\<close>

datatype error = NoTemplate string | Failure string

subsection \<open>Labels.String and Attributes.String\<close>

text \<open>
  A \<^verbatim>\<open>range\<close> loop over a map visits every entry once, in an order that Go leaves
  open. The argument of the two functions is the list of entries in the order of the visit;
  \<open>range_order m xs\<close> says that \<open>xs\<close> is such a visit of the map \<open>m\<close>.
\<close>

definition range_order :: "(string \<rightharpoonup> string) \<Rightarrow> (string \<times> string) list \<Rightarrow> bool" where
  "range_order m xs = (distinct (map fst xs) \<and> map_of xs = m)"

definition Labels_String :: "(string \<times> string) list \<Rightarrow> string" where
  "Labels_String labels =
     (let selector =
            fold (\<lambda>(key, val) selector.
                    let property = ReplaceAllString not_a_z0_9 (ToLower key) ''_''
                    in selector @ [''node.Label_'' @ property @ '' = '' @ [dquote] @ val @ [dquote]])
                 labels []
      in Join (sort selector) '', '')"

definition Attributes_String :: "(string \<times> string) list \<Rightarrow> string" where
  "Attributes_String attr =
     (let selector =
            fold (\<lambda>(key, val) selector. selector @ [key @ ''='' @ [dquote] @ val @ [dquote]])
                 attr []
      in Join (sort selector) '' '')"

subsection \<open>ToUID\<close>

text \<open>\<^verbatim>\<open>crypto/md5\<close>: the MD5 message digest of RFC 1321 on 32-bit words.\<close>

type_synonym u32 = "32 word"

definition md5_s :: "nat list" where
  "md5_s = [7, 12, 17, 22, 7, 12, 17, 22, 7, 12, 17, 22, 7, 12, 17, 22,
            5, 9, 14, 20, 5, 9, 14, 20, 5, 9, 14, 20, 5, 9, 14, 20,
            4, 11, 16, 23, 4, 11, 16, 23, 4, 11, 16, 23, 4, 11, 16, 23,
            6, 10, 15, 21, 6, 10, 15, 21, 6, 10, 15, 21, 6, 10, 15, 21]"

definition md5_K :: "u32 list" where
  "md5_K =
       [0xd76aa478, 0xe8c7b756, 0x242070db, 0xc1bdceee, 0xf57c0faf, 0x4787c62a, 0xa8304613, 0xfd469501,
        0x698098d8, 0x8b44f7af, 0xffff5bb1, 0x895cd7be, 0x6b901122, 0xfd987193, 0xa679438e, 0x49b40821,
        0xf61e2562, 0xc040b340, 0x265e5a51, 0xe9b6c7aa, 0xd62f105d, 0x02441453, 0xd8a1e681, 0xe7d3fbc8,
        0x21e1cde6, 0xc33707d6, 0xf4d50d87, 0x455a14ed, 0xa9e3e905, 0xfcefa3f8, 0x676f02d9, 0x8d2a4c8a,
        0xfffa3942, 0x8771f681, 0x6d9d6122, 0xfde5380c, 0xa4beea44, 0x4bdecfa9, 0xf6bb4b60, 0xbebfbc70,
        0x289b7ec6, 0xeaa127fa, 0xd4ef3085, 0x04881d05, 0xd9d4d039, 0xe6db99e5, 0x1fa27cf8, 0xc4ac5665,
        0xf4292244, 0x432aff97, 0xab9423a7, 0xfc93a039, 0x655b59c3, 0x8f0ccc92, 0xffeff47d, 0x85845dd1,
        0x6fa87e4f, 0xfe2ce6e0, 0xa3014314, 0x4e0811a1, 0xf7537e82, 0xbd3af235, 0x2ad7d2bb, 0xeb86d391]"

text \<open>Padding: the byte 0x80, zero bytes up to 56 modulo 64, and the length in bits as
  eight bytes, lowest first.\<close>

definition md5_pad :: "nat list \<Rightarrow> nat list" where
  "md5_pad bs =
     bs @ [128] @ replicate ((119 - length bs mod 64) mod 64) 0 @
     map (\<lambda>i. (8 * length bs) div 2 ^ (8 * i) mod 256) [0, 1, 2, 3, 4, 5, 6, 7]"

fun le_words :: "nat list \<Rightarrow> u32 list" where
  "le_words (a # b # c # d # bs) =
     word_of_nat (a + 256 * b + 65536 * c + 16777216 * d) # le_words bs"
| "le_words _ = []"

definition md5_round ::
    "u32 list \<Rightarrow> nat \<Rightarrow> u32 \<times> u32 \<times> u32 \<times> u32 \<Rightarrow> u32 \<times> u32 \<times> u32 \<times> u32" where
  "md5_round M i st =
     (case st of (A, B, C, D) \<Rightarrow>
        let (F, g) =
              (if i < 16 then ((B AND C) OR (NOT B AND D), i)
               else if i < 32 then ((D AND B) OR (NOT D AND C), (5 * i + 1) mod 16)
               else if i < 48 then (B XOR C XOR D, (3 * i + 5) mod 16)
               else (C XOR (B OR NOT D), (7 * i) mod 16));
            F = F + A + md5_K ! i + M ! g
        in (D, B + (push_bit (md5_s ! i) F OR drop_bit (32 - md5_s ! i) F), B, C))"

text \<open>The 64 steps on one block, \<open>i\<close> counting up from 0.\<close>

fun md5_rounds ::
    "nat \<Rightarrow> nat \<Rightarrow> u32 list \<Rightarrow> u32 \<times> u32 \<times> u32 \<times> u32 \<Rightarrow> u32 \<times> u32 \<times> u32 \<times> u32" where
  "md5_rounds 0 i M st = st"
| "md5_rounds (Suc n) i M st = md5_rounds n (i + 1) M (md5_round M i st)"

definition md5_block ::
    "u32 \<times> u32 \<times> u32 \<times> u32 \<Rightarrow> u32 list \<Rightarrow> u32 \<times> u32 \<times> u32 \<times> u32" where
  "md5_block st M =
     (case st of (a0, b0, c0, d0) \<Rightarrow>
      case md5_rounds 64 0 M st of
        (A, B, C, D) \<Rightarrow> (a0 + A, b0 + B, c0 + C, d0 + D))"

fun md5_blocks ::
    "nat \<Rightarrow> u32 \<times> u32 \<times> u32 \<times> u32 \<Rightarrow> u32 list \<Rightarrow> u32 \<times> u32 \<times> u32 \<times> u32" where
  "md5_blocks 0 st ws = st"
| "md5_blocks (Suc n) st ws = md5_blocks n (md5_block st (take 16 ws)) (drop 16 ws)"

definition le_bytes :: "u32 \<Rightarrow> nat list" where
  "le_bytes w = map (\<lambda>i. unat w div 2 ^ (8 * i) mod 256) [0, 1, 2, 3]"

text \<open>\<^verbatim>\<open>md5.Sum(bytes)\<close>, the 16 bytes of the digest.\<close>

definition md5_Sum :: "string \<Rightarrow> nat list" where
  "md5_Sum bytes =
     (let ws = le_words (md5_pad (map of_char bytes)) in
      case md5_blocks (length ws div 16) (0x67452301, 0xefcdab89, 0x98badcfe, 0x10325476) ws of
        (a, b, c, d) \<Rightarrow> le_bytes a @ le_bytes b @ le_bytes c @ le_bytes d)"

text \<open>\<^verbatim>\<open>fmt.Sprintf("%x", digest)\<close>: two lower-case hexadecimal digits for each byte.\<close>

definition hex_byte :: "nat \<Rightarrow> string" where
  "hex_byte n = [''0123456789abcdef'' ! (n div 16), ''0123456789abcdef'' ! (n mod 16)]"

definition Sprintf_x :: "nat list \<Rightarrow> string" where
  "Sprintf_x bs = concat (map hex_byte bs)"

text \<open>
  \<^verbatim>\<open>ToUID(params ...interface{})\<close>. \<open>Sprint\<close> is \<^verbatim>\<open>fmt.Sprint\<close> on the
  parameters' type. \<^verbatim>\<open>make([]string, len(params))\<close> is a slice that already holds
  \<^verbatim>\<open>len(params)\<close> empty strings, and the loop appends behind them. The digest is
  always 32 digits long, so none of the five slices is out of range.
\<close>

definition ToUID :: "('a \<Rightarrow> string) \<Rightarrow> 'a list \<Rightarrow> UID" where
  "ToUID Sprint params =
     (let input = replicate (length params) [];
          input = fold (\<lambda>param input. input @ [Sprint param]) params input;
          bytes = Join input ''-'';
          md5sum = Sprintf_x (md5_Sum bytes);
          slice = [take 8 md5sum,
                   take 4 (drop 8 md5sum),
                   take 4 (drop 12 md5sum),
                   take 4 (drop 16 md5sum),
                   drop 20 md5sum]
      in Join slice ''-'')"

subsection \<open>Group, version and kind\<close>

text \<open>\<^verbatim>\<open>schema.GroupVersionKind\<close> of k8s.io/apimachinery and the functions on it that
  the graph calls.\<close>

record GroupVersionKind =
  Group :: string
  Version :: string
  GVKind :: string

text \<open>\<^verbatim>\<open>schema.ParseGroupVersion\<close>: the group and the version, or \<open>None\<close> for the
  error on more than one slash.\<close>

definition ParseGroupVersion :: "string \<Rightarrow> (string \<times> string) option" where
  "ParseGroupVersion gv =
     (if length gv = 0 \<or> gv = ''/'' then Some ([], [])
      else if count_list gv CHR ''/'' = 0 then Some ([], gv)
      else if count_list gv CHR ''/'' = 1
        then Some (takeWhile (\<lambda>c. c \<noteq> CHR ''/'') gv, tl (dropWhile (\<lambda>c. c \<noteq> CHR ''/'') gv))
      else None)"

definition FromAPIVersionAndKind :: "string \<Rightarrow> string \<Rightarrow> GroupVersionKind" where
  "FromAPIVersionAndKind apiVersion kind =
     (case ParseGroupVersion apiVersion of
        Some (grp, ver) \<Rightarrow> \<lparr>Group = grp, Version = ver, GVKind = kind\<rparr>
      | None \<Rightarrow> \<lparr>Group = [], Version = [], GVKind = kind\<rparr>)"

text \<open>\<^verbatim>\<open>gvk.ToAPIVersionAndKind()\<close>: two empty strings for the empty value, else
  \<^verbatim>\<open>gvk.GroupVersion().String()\<close> and the kind.\<close>

definition ToAPIVersionAndKind :: "GroupVersionKind \<Rightarrow> string \<times> string" where
  "ToAPIVersionAndKind gvk =
     (if length (Group gvk) = 0 \<and> length (Version gvk) = 0 \<and> length (GVKind gvk) = 0
      then ([], [])
      else ((if length (Group gvk) > 0 then Group gvk @ ''/'' @ Version gvk else Version gvk),
            GVKind gvk))"

text \<open>\<^verbatim>\<open>gvk.GroupKind().String()\<close>.\<close>

definition GroupKind_String :: "GroupVersionKind \<Rightarrow> string" where
  "GroupKind_String gvk =
     (if length (Group gvk) = 0 then GVKind gvk else GVKind gvk @ ''.'' @ Group gvk)"

subsection \<open>Objects\<close>

text \<open>
  \<^verbatim>\<open>metav1.OwnerReference\<close>, the part of the \<^verbatim>\<open>metav1.Object\<close> interface that
  \<^verbatim>\<open>Graph.Node\<close> reads and writes (the fields are named after the getters), and an
  \<^verbatim>\<open>unstructured.Unstructured\<close> object: its API version, its kind and its metadata.
\<close>

record OwnerReference =
  OwnerAPIVersion :: string
  OwnerKind :: string
  OwnerName :: string
  OwnerUID :: UID

record Object =
  GetClusterName :: string
  GetNamespace :: string
  GetUID :: UID
  GetLabels :: Labels
  GetName :: string
  GetOwnerReferences :: "OwnerReference list"

record Unstructured =
  GetAPIVersion :: string
  GetKind :: string
  metadata :: Object

text \<open>\<^verbatim>\<open>unstr.GroupVersionKind()\<close>: the empty value when the API version does not
  parse.\<close>

definition Unstructured_GroupVersionKind :: "Unstructured \<Rightarrow> GroupVersionKind" where
  "Unstructured_GroupVersionKind u =
     (case ParseGroupVersion (GetAPIVersion u) of
        None \<Rightarrow> \<lparr>Group = [], Version = [], GVKind = []\<rparr>
      | Some (grp, ver) \<Rightarrow> \<lparr>Group = grp, Version = ver, GVKind = GetKind u\<rparr>)"

subsection \<open>Reading the registries\<close>

text \<open>Reading \<^verbatim>\<open>g.Nodes[cluster]\<close>, \<^verbatim>\<open>g.Nodes[cluster][namespace]\<close> and
  \<^verbatim>\<open>g.Relationships[uid]\<close>: a missing key reads as the nil map or slice, which
  reads as an empty one.\<close>

definition namespaces_of :: "Graph \<Rightarrow> string \<Rightarrow> (string \<rightharpoonup> (UID \<rightharpoonup> Node))" where
  "namespaces_of g cluster = (case Nodes g cluster of None \<Rightarrow> Map.empty | Some m \<Rightarrow> m)"

definition nodes_of :: "Graph \<Rightarrow> string \<Rightarrow> string \<Rightarrow> (UID \<rightharpoonup> Node)" where
  "nodes_of g cluster ns = (case namespaces_of g cluster ns of None \<Rightarrow> Map.empty | Some m \<Rightarrow> m)"

definition rels :: "Graph \<Rightarrow> UID \<Rightarrow> Relationship list" where
  "rels g uid = (case Relationships g uid of None \<Rightarrow> [] | Some rs \<Rightarrow> rs)"

text \<open>
  A \<^verbatim>\<open>*Relationship\<close> is the address of an element that stays where it is: the slice
  under a source UID only grows at its end. The pointer is modelled as the source UID and
  the position in that slice.
\<close>

type_synonym RelationshipPtr = "UID \<times> nat"

definition deref :: "Graph \<Rightarrow> RelationshipPtr \<Rightarrow> Relationship option" where
  "deref g p = (if snd p < length (rels g (fst p)) then Some (rels g (fst p) ! snd p) else None)"

subsection \<open>Graph.Relationship and Relationship.Attribute\<close>

text \<open>The loop of lines 236 to 240: the position of the first edge whose target UID is
  \<open>uid\<close>, counted from \<open>i\<close>.\<close>

fun find_To :: "Relationship list \<Rightarrow> UID \<Rightarrow> nat \<Rightarrow> nat option" where
  "find_To [] uid i = None"
| "find_To (r # rs) uid i = (if RefUID (To r) = uid then Some i else find_To rs uid (Suc i))"

definition Graph_Relationship ::
    "Graph \<Rightarrow> Node \<Rightarrow> string \<Rightarrow> Node \<Rightarrow> RelationshipPtr \<times> Graph" where
  "Graph_Relationship g from label to =
     (case (case Relationships g (UID from) of
              Some rs \<Rightarrow> find_To rs (UID to) 0
            | None \<Rightarrow> None) of
        Some i \<Rightarrow> ((UID from, i), g)
      | None \<Rightarrow>
          (let relationship =
                 \<lparr>From = \<lparr>RefUID = UID from, RefKind = Kind from\<rparr>,
                  Type = label,
                  To = \<lparr>RefUID = UID to, RefKind = Kind to\<rparr>,
                  Attr = Map.empty\<rparr>
           in ((UID from, length (rels g (UID from))),
               g\<lparr>Relationships :=
                    (Relationships g)(UID from \<mapsto> rels g (UID from) @ [relationship])\<rparr>)))"

text \<open>\<^verbatim>\<open>r.Attr[key] = value; return r\<close>, through the pointer. A pointer returned by
  \<open>Graph_Relationship\<close> is never dangling; on any other the model changes nothing.\<close>

definition Relationship_Attribute ::
    "Graph \<Rightarrow> RelationshipPtr \<Rightarrow> string \<Rightarrow> string \<Rightarrow> RelationshipPtr \<times> Graph" where
  "Relationship_Attribute g r key val =
     (case deref g r of
        None \<Rightarrow> (r, g)
      | Some x \<Rightarrow>
          (r, g\<lparr>Relationships :=
                 (Relationships g)(fst r \<mapsto> (rels g (fst r))[snd r := x\<lparr>Attr := (Attr x)(key \<mapsto> val)\<rparr>])\<rparr>))"

subsection \<open>Graph.Node\<close>

text \<open>Lines 188 to 190: the cluster name defaults to the host name of the client.\<close>

definition default_cluster :: "Graph \<Rightarrow> Object \<Rightarrow> Object" where
  "default_cluster g obj =
     (if GetClusterName obj = [] then obj\<lparr>GetClusterName := clientset g\<rparr> else obj)"

text \<open>Lines 191 to 196: the two inner maps are made when they are missing.\<close>

definition make_maps :: "Graph \<Rightarrow> Object \<Rightarrow> Graph" where
  "make_maps g obj =
     (let g = (if Nodes g (GetClusterName obj) = None
               then g\<lparr>Nodes := (Nodes g)(GetClusterName obj \<mapsto> Map.empty)\<rparr>
               else g)
      in if namespaces_of g (GetClusterName obj) (GetNamespace obj) = None
         then g\<lparr>Nodes := (Nodes g)(GetClusterName obj \<mapsto>
                  (namespaces_of g (GetClusterName obj))(GetNamespace obj \<mapsto> Map.empty))\<rparr>
         else g)"

text \<open>Lines 197 to 201: an object whose key already holds a node with labels takes
  those labels.\<close>

definition inherit_labels :: "Graph \<Rightarrow> Object \<Rightarrow> Object" where
  "inherit_labels g obj =
     (case nodes_of g (GetClusterName obj) (GetNamespace obj) (GetUID obj) of
        Some n \<Rightarrow> if Labels n \<noteq> Map.empty then obj\<lparr>GetLabels := Labels n\<rparr> else obj
      | None \<Rightarrow> obj)"

text \<open>Lines 188 to 201 together; both the object and the graph are changed in place.\<close>

definition Node_enter :: "Graph \<Rightarrow> Object \<Rightarrow> Object \<times> Graph" where
  "Node_enter g obj =
     (let obj = default_cluster g obj;
          g = make_maps g obj;
          obj = inherit_labels g obj
      in (obj, g))"

text \<open>Lines 203 to 211: the node value.\<close>

definition Node_value :: "GroupVersionKind \<Rightarrow> Object \<Rightarrow> Node" where
  "Node_value gvk obj =
     (case ToAPIVersionAndKind gvk of (apiVersion, kind) \<Rightarrow>
        \<lparr>APIVersion = apiVersion, Kind = kind, Labels = GetLabels obj, Name = GetName obj,
         Namespace = GetNamespace obj, UID = GetUID obj\<rparr>)"

text \<open>Line 216: \<^verbatim>\<open>g.Nodes[cluster][namespace][uid] = node\<close>. Both inner maps exist
  when the line is reached.\<close>

definition Node_store :: "Graph \<Rightarrow> Object \<Rightarrow> Node \<Rightarrow> Graph" where
  "Node_store g obj node =
     g\<lparr>Nodes := (Nodes g)(GetClusterName obj \<mapsto>
          (namespaces_of g (GetClusterName obj))(GetNamespace obj \<mapsto>
             (nodes_of g (GetClusterName obj) (GetNamespace obj))(GetUID obj \<mapsto> node)))\<rparr>"

text \<open>Lines 221 to 225: the \<^verbatim>\<open>metav1.ObjectMeta\<close> made for an owner reference; the
  fields that the literal leaves out are zero.\<close>

definition owner_meta :: "Object \<Rightarrow> OwnerReference \<Rightarrow> Object" where
  "owner_meta obj ownerRef =
     \<lparr>GetClusterName = [], GetNamespace = GetNamespace obj, GetUID = OwnerUID ownerRef,
      GetLabels = Map.empty, GetName = OwnerName ownerRef, GetOwnerReferences = []\<rparr>"

text \<open>The method returns the node; the model also returns the object, which the method
  has changed in place, and the graph.\<close>

function Graph_Node :: "Graph \<Rightarrow> GroupVersionKind \<Rightarrow> Object \<Rightarrow> Node \<times> Object \<times> Graph" where
  "Graph_Node g gvk obj =
     (case Node_enter g obj of (obj, g) \<Rightarrow>
        let node = Node_value gvk obj in
        if GroupKind_String gvk = ''Namespace'' then (node, obj, g)
        else
          (let g = Node_store g obj node;
               g = fold (\<lambda>ownerRef g.
                           case Graph_Node g
                                  (FromAPIVersionAndKind (OwnerAPIVersion ownerRef) (OwnerKind ownerRef))
                                  (owner_meta obj ownerRef) of
                             (owner, _, g) \<Rightarrow> snd (Graph_Relationship g owner (Kind node) node))
                        (GetOwnerReferences obj) g
           in (node, obj, g)))"
  by pat_completeness auto
termination
  apply (relation "measure (\<lambda>(g, gvk, obj). length (GetOwnerReferences obj))")
   apply simp
  apply (clarsimp simp: owner_meta_def)
  apply (drule arg_cong [where f = "\<lambda>p. GetOwnerReferences (fst p)"])
  apply (simp add: Node_enter_def Let_def default_cluster_def inherit_labels_def
      split: option.splits if_splits)
  done

subsection \<open>Graph.Unstructured and NewGraph\<close>

text \<open>
  The extractors \<^verbatim>\<open>CoreV1Graph\<close>, \<^verbatim>\<open>NetworkingV1Graph\<close> and
  \<^verbatim>\<open>RouteV1Graph\<close> are defined in other files of the package. Each is taken as the
  function that its \<^verbatim>\<open>Unstructured\<close> method computes on the graph it points to: an
  error or nil, and the graph after the call.
\<close>

record Extractors =
  CoreV1_Unstructured :: "Graph \<Rightarrow> Unstructured \<Rightarrow> error option \<times> Graph"
  NetworkingV1_Unstructured :: "Graph \<Rightarrow> Unstructured \<Rightarrow> error option \<times> Graph"
  RouteV1_Unstructured :: "Graph \<Rightarrow> Unstructured \<Rightarrow> error option \<times> Graph"

definition Graph_Unstructured :: "Extractors \<Rightarrow> Graph \<Rightarrow> Unstructured \<Rightarrow> error option \<times> Graph" where
  "Graph_Unstructured ex g unstr =
     (case Graph_Node g (Unstructured_GroupVersionKind unstr) (metadata unstr) of
        (_, obj, g) \<Rightarrow>
          let unstr = unstr\<lparr>metadata := obj\<rparr> in
          if GetAPIVersion unstr = ''v1'' then CoreV1_Unstructured ex g unstr
          else if GetAPIVersion unstr = ''networking.k8s.io/v1''
            then NetworkingV1_Unstructured ex g unstr
          else if GetAPIVersion unstr = ''route.openshift.io/v1''
            then RouteV1_Unstructured ex g unstr
          else (None, g))"

text \<open>\<^verbatim>\<open>errors.NewAggregate\<close> on a list without nil entries: nil for the empty
  list, else the aggregate of the list.\<close>

definition NewAggregate :: "error list \<Rightarrow> error list option" where
  "NewAggregate errlist = (if length errlist = 0 then None else Some errlist)"

text \<open>The loop of lines 159 to 165. The callback \<^verbatim>\<open>processed\<close> acts on a state
  \<open>p\<close> of its own.\<close>

fun NewGraph_loop ::
    "Extractors \<Rightarrow> ('p \<Rightarrow> 'p) \<Rightarrow> Unstructured list \<Rightarrow> Graph \<Rightarrow> error list \<Rightarrow> 'p \<Rightarrow>
     Graph \<times> error list \<times> 'p" where
  "NewGraph_loop ex processed [] g errs p = (g, errs, p)"
| "NewGraph_loop ex processed (obj # objs) g errs p =
     (case Graph_Unstructured ex g obj of
        (err, g) \<Rightarrow>
          NewGraph_loop ex processed objs g
            (case err of Some e \<Rightarrow> errs @ [e] | None \<Rightarrow> errs) (processed p))"

definition NewGraph ::
    "string \<Rightarrow> Extractors \<Rightarrow> Unstructured list \<Rightarrow> ('p \<Rightarrow> 'p) \<Rightarrow> 'p \<Rightarrow>
     Graph \<times> error list option \<times> 'p" where
  "NewGraph host ex objs processed p =
     (let g = \<lparr>Nodes = Map.empty, Relationships = Map.empty, clientset = host\<rparr> in
      case NewGraph_loop ex processed objs g [] p of
        (g, errs, p) \<Rightarrow> (g, NewAggregate errs, p))"

subsection \<open>Graph.Write and Graph.String\<close>

text \<open>
  The two template files are embedded from outside this file. Executing a template on the
  graph is taken as a function: the error or nil, the text it has written when it stops,
  and the graph afterwards (a template can call methods on what it is given).
  \<^verbatim>\<open>init\<close> registers the two templates under their names; the root template
  \<^verbatim>\<open>output\<close> has no body and is not in the table that \<^verbatim>\<open>ExecuteTemplate\<close>
  looks the name up in.
\<close>

type_synonym Template = "Graph \<Rightarrow> error option \<times> string \<times> Graph"

definition templates :: "Template \<Rightarrow> Template \<Rightarrow> (string \<rightharpoonup> Template)" where
  "templates cypherTemplate graphvizTemplate =
     [''cypher'' \<mapsto> cypherTemplate, ''graphviz'' \<mapsto> graphvizTemplate]"

text \<open>\<^verbatim>\<open>ExecuteTemplate(w, name, data)\<close>; the writer \<open>w\<close> is the text written to it
  so far.\<close>

definition ExecuteTemplate ::
    "(string \<rightharpoonup> Template) \<Rightarrow> string \<Rightarrow> string \<Rightarrow> Graph \<Rightarrow> error option \<times> string \<times> Graph" where
  "ExecuteTemplate ts w name data =
     (case ts name of
        None \<Rightarrow> (Some (NoTemplate name), w, data)
      | Some tmpl \<Rightarrow> (case tmpl data of (err, out, data) \<Rightarrow> (err, w @ out, data)))"

definition Graph_Write ::
    "Template \<Rightarrow> Template \<Rightarrow> Graph \<Rightarrow> string \<Rightarrow> string \<Rightarrow> error option \<times> string \<times> Graph" where
  "Graph_Write cypherTemplate graphvizTemplate g w format =
     (case ExecuteTemplate (templates cypherTemplate graphvizTemplate) w format g of
        (err, w, g) \<Rightarrow>
          (case err of
             Some e \<Rightarrow> (Some e, w, g)
           | None \<Rightarrow> (None, w, g)))"

definition Graph_String :: "Template \<Rightarrow> Template \<Rightarrow> Graph \<Rightarrow> string \<Rightarrow> string \<times> Graph" where
  "Graph_String cypherTemplate graphvizTemplate g format =
     (let b = [] in
      case Graph_Write cypherTemplate graphvizTemplate g b format of
        (_, b, g) \<Rightarrow> (b, g))"

subsection \<open>What the properties are stated with\<close>

text \<open>The graph of lines 147 to 151.\<close>

definition empty_Graph :: "string \<Rightarrow> Graph" where
  "empty_Graph host = \<lparr>Nodes = Map.empty, Relationships = Map.empty, clientset = host\<rparr>"

text \<open>The edges stored from one node to another, and whether there is one.\<close>

definition edges_between :: "Graph \<Rightarrow> UID \<Rightarrow> UID \<Rightarrow> Relationship list" where
  "edges_between g a b = filter (\<lambda>r. RefUID (To r) = b) (rels g a)"

definition has_edge :: "Graph \<Rightarrow> UID \<Rightarrow> UID \<Rightarrow> bool" where
  "has_edge g a b = (edges_between g a b \<noteq> [])"

text \<open>Every stored edge as from-identifier, to-identifier and label.\<close>

definition edge_set :: "Graph \<Rightarrow> (UID \<times> UID \<times> string) set" where
  "edge_set g = {(RefUID (From r), RefUID (To r), Type r) | r a. r \<in> set (rels g a)}"

text \<open>Every stored node with its key.\<close>

definition stored_nodes :: "Graph \<Rightarrow> (string \<times> string \<times> UID \<times> Node) set" where
  "stored_nodes g = {(cluster, ns, uid, n). nodes_of g cluster ns uid = Some n}"

text \<open>The key under which \<open>Graph_Node\<close> files an object in a graph.\<close>

definition key_of :: "Graph \<Rightarrow> Object \<Rightarrow> string \<times> string \<times> UID" where
  "key_of g obj = (GetClusterName (default_cluster g obj), GetNamespace obj, GetUID obj)"

text \<open>The body of the loop of lines 218 to 228, as a step on the graph.\<close>

definition owner_step :: "Object \<Rightarrow> Node \<Rightarrow> OwnerReference \<Rightarrow> Graph \<Rightarrow> Graph" where
  "owner_step obj node ownerRef g =
     (case Graph_Node g (FromAPIVersionAndKind (OwnerAPIVersion ownerRef) (OwnerKind ownerRef))
             (owner_meta obj ownerRef) of
        (owner, _, g) \<Rightarrow> snd (Graph_Relationship g owner (Kind node) node))"

text \<open>The edge that the loop registers for an owner reference of the object behind
  \<open>node\<close>.\<close>

definition owner_edge :: "OwnerReference \<Rightarrow> Node \<Rightarrow> Relationship" where
  "owner_edge ownerRef node =
     \<lparr>From = \<lparr>RefUID = OwnerUID ownerRef, RefKind = OwnerKind ownerRef\<rparr>,
      Type = Kind node,
      To = \<lparr>RefUID = UID node, RefKind = Kind node\<rparr>,
      Attr = Map.empty\<rparr>"

text \<open>A sequence of calls of \<open>Graph_Node\<close>, each with its group-version-kind and its
  object.\<close>

definition Node_all :: "(GroupVersionKind \<times> Object) list \<Rightarrow> Graph \<Rightarrow> Graph" where
  "Node_all calls g = fold (\<lambda>(gvk, obj) g. snd (snd (Graph_Node g gvk obj))) calls g"

text \<open>Labels that a key holds are still there: every node with a non-empty label set in
  \<open>g\<close> has a node with the same labels under the same key in \<open>g'\<close>.\<close>

definition labels_kept :: "Graph \<Rightarrow> Graph \<Rightarrow> bool" where
  "labels_kept g g' =
     (\<forall>c ns u n. nodes_of g c ns u = Some n \<longrightarrow> Labels n \<noteq> Map.empty \<longrightarrow>
        (\<exists>n'. nodes_of g' c ns u = Some n' \<and> Labels n' = Labels n))"

text \<open>A node of kind Namespace whose API version names no group: the kind Namespace
  of the core API.\<close>

definition core_Namespace :: "Node \<Rightarrow> bool" where
  "core_Namespace n = (Kind n = ''Namespace'' \<and> CHR ''/'' \<notin> set (APIVersion n))"

text \<open>No stored node is a core Namespace node.\<close>

definition none_core :: "Graph \<Rightarrow> bool" where
  "none_core g = (\<forall>c ns u n. nodes_of g c ns u = Some n \<longrightarrow> \<not> core_Namespace n)"

text \<open>Every stored edge with the key it is stored under, and the registration of one edge
  as the loop of lines 236 to 240 decides it: an edge is added under its key unless the key
  already holds an edge to the same target.\<close>

definition rel_pairs :: "Graph \<Rightarrow> (UID \<times> Relationship) set" where
  "rel_pairs g = {(a, r). r \<in> set (rels g a)}"

definition add_pair :: "UID \<times> Relationship \<Rightarrow> (UID \<times> Relationship) set \<Rightarrow> (UID \<times> Relationship) set" where
  "add_pair x S =
     (if \<exists>r. (fst x, r) \<in> S \<and> RefUID (To r) = RefUID (To (snd x)) then S else insert x S)"

text \<open>The edges that \<open>Graph_Node\<close> tries to register for an object, in the order of its
  owner references.\<close>

definition child_pairs :: "GroupVersionKind \<Rightarrow> Object \<Rightarrow> (UID \<times> Relationship) list" where
  "child_pairs gvk obj =
     (if GroupKind_String gvk = ''Namespace'' then []
      else map (\<lambda>ownerRef.
                  (OwnerUID ownerRef,
                   \<lparr>From = \<lparr>RefUID = OwnerUID ownerRef, RefKind = OwnerKind ownerRef\<rparr>,
                    Type = GVKind gvk,
                    To = \<lparr>RefUID = GetUID obj, RefKind = GVKind gvk\<rparr>,
                    Attr = Map.empty\<rparr>))
               (GetOwnerReferences obj))"

text \<open>
  What an extractor may do to the graph: it keeps the client, every key that holds a node
  still holds one, and every pair of nodes that has an edge still has one.
\<close>

definition grows :: "Graph \<Rightarrow> Graph \<Rightarrow> bool" where
  "grows g g' =
     (clientset g' = clientset g \<and>
      (\<forall>c ns u. nodes_of g c ns u \<noteq> None \<longrightarrow> nodes_of g' c ns u \<noteq> None) \<and>
      (\<forall>a b. has_edge g a b \<longrightarrow> has_edge g' a b))"

definition extractors_grow :: "Extractors \<Rightarrow> bool" where
  "extractors_grow ex =
     (\<forall>g u. grows g (snd (CoreV1_Unstructured ex g u)) \<and>
            grows g (snd (NetworkingV1_Unstructured ex g u)) \<and>
            grows g (snd (RouteV1_Unstructured ex g u)))"

text \<open>The generic part of the ingestion of an object shows in a graph: unless the object
  is a core Namespace, its key holds a node, and every owner reference has its edge.\<close>

definition ingested :: "string \<Rightarrow> Unstructured \<Rightarrow> Graph \<Rightarrow> bool" where
  "ingested host u g =
     (GroupKind_String (Unstructured_GroupVersionKind u) \<noteq> ''Namespace'' \<longrightarrow>
        nodes_of g (if GetClusterName (metadata u) = [] then host else GetClusterName (metadata u))
          (GetNamespace (metadata u)) (GetUID (metadata u)) \<noteq> None \<and>
        (\<forall>ownerRef \<in> set (GetOwnerReferences (metadata u)).
           has_edge g (OwnerUID ownerRef) (GetUID (metadata u))))"

text \<open>
  The rendering of a label as the specification words it: the key in lower case, every
  run of characters outside \<^verbatim>\<open>[a-z0-9]\<close> replaced by one underscore. \<open>runs P xs\<close>
  cuts \<open>xs\<close> into its maximal runs of elements on which \<open>P\<close> has the same value.
\<close>

function runs :: "('a \<Rightarrow> bool) \<Rightarrow> 'a list \<Rightarrow> 'a list list" where
  "runs P [] = []"
| "runs P (x # xs) =
     (x # takeWhile (\<lambda>y. P y = P x) xs) # runs P (dropWhile (\<lambda>y. P y = P x) xs)"
  by pat_completeness auto
termination
  by (relation "measure (\<lambda>(P, xs). length xs)")
     (auto simp: le_imp_less_Suc length_dropWhile_le)

definition normalized_key :: "string \<Rightarrow> string" where
  "normalized_key key =
     concat (map (\<lambda>run. if not_a_z0_9 (hd run) then ''_'' else run)
                 (runs not_a_z0_9 (ToLower key)))"

definition label_clause :: "string \<times> string \<Rightarrow> string" where
  "label_clause = (\<lambda>(key, val).
     ''node.Label_'' @ normalized_key key @ '' = '' @ [dquote] @ val @ [dquote])"

definition attr_clause :: "string \<times> string \<Rightarrow> string" where
  "attr_clause = (\<lambda>(key, val). key @ ''='' @ [dquote] @ val @ [dquote])"

text \<open>
  The identifier as the specification describes it: the parameters stringified and joined
  with the separator, the MD5 digest of these bytes, and its 32 hexadecimal digits in
  groups of 8, 4, 4, 4 and 12.
\<close>

definition hyphen_groups :: "string \<Rightarrow> string" where
  "hyphen_groups digits =
     take 8 digits @ ''-'' @ take 4 (drop 8 digits) @ ''-'' @ take 4 (drop 12 digits) @ ''-'' @
     take 4 (drop 16 digits) @ ''-'' @ drop 20 digits"

definition described_ToUID :: "('a \<Rightarrow> string) \<Rightarrow> 'a list \<Rightarrow> UID" where
  "described_ToUID Sprint params =
     hyphen_groups (Sprintf_x (md5_Sum (Join (map Sprint params) ''-'')))"

subsection \<open>Example data\<close>

text \<open>Concrete inputs on which the properties below are evaluated. Two nodes:\<close>

definition example_X :: Node where
  "example_X = \<lparr>APIVersion = ''v1'', Kind = ''Service'', Labels = Map.empty, Name = ''web'',
                 Namespace = ''default'', UID = ''uid-x''\<rparr>"

definition example_Y :: Node where
  "example_Y = \<lparr>APIVersion = ''v1'', Kind = ''Pod'', Labels = Map.empty, Name = ''web-1'',
                 Namespace = ''default'', UID = ''uid-y''\<rparr>"

text \<open>A pod with the label a = 1, the same pod without labels, and the graph that holds
  the first.\<close>

definition example_gvk_pod :: GroupVersionKind where
  "example_gvk_pod = \<lparr>Group = [], Version = ''v1'', GVKind = ''Pod''\<rparr>"

definition example_pod :: Object where
  "example_pod =
     \<lparr>GetClusterName = [], GetNamespace = ''default'', GetUID = ''uid-p'',
      GetLabels = [''a'' \<mapsto> ''1''], GetName = ''p'', GetOwnerReferences = []\<rparr>"

definition example_pod_bare :: Object where
  "example_pod_bare = example_pod\<lparr>GetLabels := Map.empty\<rparr>"

definition example_labelled :: Graph where
  "example_labelled = snd (snd (Graph_Node (empty_Graph ''host'') example_gvk_pod example_pod))"

text \<open>A Namespace object of the core API, and an object of kind Namespace in another
  API group.\<close>

definition example_namespace :: Unstructured where
  "example_namespace =
     \<lparr>GetAPIVersion = ''v1'', GetKind = ''Namespace'',
      metadata = \<lparr>GetClusterName = [], GetNamespace = [], GetUID = ''uid-n'',
                  GetLabels = Map.empty, GetName = ''team-a'', GetOwnerReferences = []\<rparr>\<rparr>"

definition example_custom_namespace :: Unstructured where
  "example_custom_namespace = example_namespace\<lparr>GetAPIVersion := ''example.com/v1''\<rparr>"

text \<open>A Deployment, a ReplicaSet that names it as its owner, that owner reference, and
  the graph that holds the Deployment.\<close>

definition example_D :: Unstructured where
  "example_D =
     \<lparr>GetAPIVersion = ''apps/v1'', GetKind = ''Deployment'',
      metadata = \<lparr>GetClusterName = [], GetNamespace = ''default'',
                  GetUID = ''11111111-1111-1111-1111-111111111111'',
                  GetLabels = [''app'' \<mapsto> ''web''], GetName = ''web'',
                  GetOwnerReferences = []\<rparr>\<rparr>"

definition example_R :: Unstructured where
  "example_R =
     \<lparr>GetAPIVersion = ''apps/v1'', GetKind = ''ReplicaSet'',
      metadata = \<lparr>GetClusterName = [], GetNamespace = ''default'',
                  GetUID = ''22222222-2222-2222-2222-222222222222'',
                  GetLabels = [''app'' \<mapsto> ''web''], GetName = ''web-5d4f'',
                  GetOwnerReferences =
                    [\<lparr>OwnerAPIVersion = ''apps/v1'', OwnerKind = ''Deployment'',
                      OwnerName = ''web'',
                      OwnerUID = ''11111111-1111-1111-1111-111111111111''\<rparr>]\<rparr>\<rparr>"

definition example_ref :: OwnerReference where
  "example_ref =
     \<lparr>OwnerAPIVersion = ''apps/v1'', OwnerKind = ''Deployment'', OwnerName = ''web'',
      OwnerUID = ''11111111-1111-1111-1111-111111111111''\<rparr>"

definition example_graph_D :: Graph where
  "example_graph_D =
     snd (snd (Graph_Node (empty_Graph ''host'') (Unstructured_GroupVersionKind example_D)
                 (metadata example_D)))"

text \<open>Extractors that never fail and leave the graph as it is.\<close>

definition no_extractors :: Extractors where
  "no_extractors =
     \<lparr>CoreV1_Unstructured = (\<lambda>g u. (None, g)),
      NetworkingV1_Unstructured = (\<lambda>g u. (None, g)),
      RouteV1_Unstructured = (\<lambda>g u. (None, g))\<rparr>"

text \<open>An extractor for the core group that fails on the object named bad, and a batch of
  three objects of which the first fails.\<close>

definition example_extractors :: Extractors where
  "example_extractors =
     \<lparr>CoreV1_Unstructured =
        (\<lambda>g u. (if GetName (metadata u) = ''bad'' then Some (Failure ''conversion'') else None, g)),
      NetworkingV1_Unstructured = (\<lambda>g u. (None, g)),
      RouteV1_Unstructured = (\<lambda>g u. (None, g))\<rparr>"

definition example_bad_pod :: Unstructured where
  "example_bad_pod =
     \<lparr>GetAPIVersion = ''v1'', GetKind = ''Pod'',
      metadata = \<lparr>GetClusterName = [], GetNamespace = ''default'', GetUID = ''uid-bad'',
                  GetLabels = Map.empty, GetName = ''bad'', GetOwnerReferences = []\<rparr>\<rparr>"

definition example_fails :: "Unstructured \<Rightarrow> error option" where
  "example_fails u =
     (if GetAPIVersion u = ''v1'' \<and> GetName (metadata u) = ''bad''
      then Some (Failure ''conversion'') else None)"

text \<open>A template that writes a line and succeeds, and one that fails after it has written
  part of its output.\<close>

definition example_template :: Template where
  "example_template g = (None, ''digraph {}'', g)"

definition example_failing_template :: Template where
  "example_failing_template g = (Some (Failure ''write failed''), ''digraph {'', g)"

text \<open>The entries of a label map.\<close>

definition example_labels :: "(string \<times> string) list" where
  "example_labels = [(''app.kubernetes.io/Name'', ''web''), (''Tier'', ''front'')]"

section \<open>Properties\<close>

subsection \<open>Graph.Relationship\<close>

lemma find_To_None: "(find_To rs uid i = None) = (\<forall>r \<in> set rs. RefUID (To r) \<noteq> uid)"
  by (induction rs arbitrary: i) auto

lemma find_To_append:
  "\<forall>r \<in> set old. RefUID (To r) \<noteq> uid \<Longrightarrow>
     find_To (old @ ys) uid i = find_To ys uid (i + length old)"
  by (induction old arbitrary: i) auto

lemma rels_update [simp]:
  "rels (g\<lparr>Relationships := (Relationships g)(a \<mapsto> rs)\<rparr>) b = (if b = a then rs else rels g b)"
  by (simp add: rels_def)

lemma find_To_rels:
  "(case Relationships g a of Some rs \<Rightarrow> find_To rs b 0 | None \<Rightarrow> None) = find_To (rels g a) b 0"
  by (simp add: rels_def split: option.splits)

lemma has_edge_find: "has_edge g a b = (find_To (rels g a) b 0 \<noteq> None)"
  by (auto simp: has_edge_def edges_between_def find_To_None filter_empty_conv)

lemma Relationship_existing:
  assumes "has_edge g a b" and "UID from = a" and "UID to = b"
  shows "snd (Graph_Relationship g from label to) = g"
    and "\<exists>i. fst (Graph_Relationship g from label to) = (a, i) \<and>
             find_To (rels g a) b 0 = Some i"
  using assms
  by (auto simp: Graph_Relationship_def find_To_rels has_edge_find split: option.splits)

lemma Relationship_fresh:
  assumes "\<not> has_edge g a b" and "UID from = a" and "UID to = b"
  shows "Graph_Relationship g from label to =
           ((a, length (rels g a)),
            g\<lparr>Relationships := (Relationships g)(a \<mapsto> rels g a @
               [\<lparr>From = \<lparr>RefUID = a, RefKind = Kind from\<rparr>, Type = label,
                 To = \<lparr>RefUID = b, RefKind = Kind to\<rparr>, Attr = Map.empty\<rparr>])\<rparr>)"
  using assms
  by (auto simp: Graph_Relationship_def find_To_rels has_edge_find Let_def split: option.splits)

lemma Attribute_last:
  assumes "rels h a = old @ [x]"
  shows "rels (snd (Relationship_Attribute h (a, length old) k v)) a =
           old @ [x\<lparr>Attr := (Attr x)(k \<mapsto> v)\<rparr>]"
  using assms by (simp add: Relationship_Attribute_def deref_def)

lemma Attribute_fold_last:
  "rels h a = old @ [x] \<Longrightarrow>
     rels (fold (\<lambda>(k, v) h. snd (Relationship_Attribute h (a, length old) k v)) kvs h) a =
       old @ [x\<lparr>Attr := fold (\<lambda>(k, v) m. m(k \<mapsto> v)) kvs (Attr x)\<rparr>]"
proof (induction kvs arbitrary: h x)
  case Nil
  then show ?case by simp
next
  case (Cons kv kvs)
  obtain k v where kv: "kv = (k, v)" by (cases kv)
  from Attribute_last [OF Cons.prems, of k v]
  have "rels (snd (Relationship_Attribute h (a, length old) k v)) a =
          old @ [x\<lparr>Attr := (Attr x)(k \<mapsto> v)\<rparr>]" .
  from Cons.IH [OF this] show ?case by (simp add: kv)
qed

lemma edge_dedup_fresh:
  assumes "\<not> has_edge g (UID X) (UID Y)"
  shows "case Graph_Relationship g X L1 Y of (r1, g1) \<Rightarrow>
           (let g1' = fold (\<lambda>(k, v) h. snd (Relationship_Attribute h r1 k v)) kvs g1 in
            case Graph_Relationship g1' X L2 Y of (r2, g2) \<Rightarrow>
              r2 = r1 \<and> g2 = g1' \<and>
              edges_between g2 (UID X) (UID Y) =
                [\<lparr>From = \<lparr>RefUID = UID X, RefKind = Kind X\<rparr>, Type = L1,
                  To = \<lparr>RefUID = UID Y, RefKind = Kind Y\<rparr>,
                  Attr = fold (\<lambda>(k, v) m. m(k \<mapsto> v)) kvs Map.empty\<rparr>] \<and>
              deref g2 r2 = Some (hd (edges_between g2 (UID X) (UID Y))))"
proof -
  define old where "old = rels g (UID X)"
  define new where "new = \<lparr>From = \<lparr>RefUID = UID X, RefKind = Kind X\<rparr>, Type = L1,
                  To = \<lparr>RefUID = UID Y, RefKind = Kind Y\<rparr>, Attr = (Map.empty :: Attributes)\<rparr>"
  define g1 where "g1 = g\<lparr>Relationships := (Relationships g)(UID X \<mapsto> old @ [new])\<rparr>"
  define r1 where "r1 = (UID X, length old)"
  define g1' where "g1' = fold (\<lambda>(k, v) h. snd (Relationship_Attribute h r1 k v)) kvs g1"
  define fin where "fin = new\<lparr>Attr := fold (\<lambda>(k, v) m. m(k \<mapsto> v)) kvs Map.empty\<rparr>"
  have first: "Graph_Relationship g X L1 Y = (r1, g1)"
    using Relationship_fresh [OF assms refl refl, of L1]
    by (simp add: r1_def g1_def old_def new_def)
  have noold: "\<forall>r \<in> set old. RefUID (To r) \<noteq> UID Y"
    using assms by (simp add: has_edge_find find_To_None old_def)
  have "rels g1 (UID X) = old @ [new]" by (simp add: g1_def)
  from Attribute_fold_last [OF this, of kvs]
  have r1': "rels g1' (UID X) = old @ [fin]"
    by (simp add: g1'_def r1_def fin_def new_def)
  have eb: "edges_between g1' (UID X) (UID Y) = [fin]"
    using noold by (simp add: edges_between_def r1' fin_def new_def filter_empty_conv)
  then have he: "has_edge g1' (UID X) (UID Y)" by (simp add: has_edge_def)
  have ft: "find_To (rels g1' (UID X)) (UID Y) 0 = Some (length old)"
    using find_To_append [OF noold, of "[fin]" 0] by (simp add: r1' fin_def new_def)
  from Relationship_existing [OF he refl refl, of L2] ft
  have second: "Graph_Relationship g1' X L2 Y = (r1, g1')"
    by (auto simp: r1_def prod_eq_iff)
  have dr: "deref g1' r1 = Some fin"
    by (simp add: deref_def r1_def r1')
  show ?thesis
    using first second eb dr
    by (simp add: g1'_def [symmetric] fin_def new_def)
qed

text \<open>
  C5. Registering (X, L1, Y) and then (X, L2, Y) returns the same pointer twice, and the
  second call leaves the graph as the first has left it. When no edge from X to Y was
  stored before, this also holds with any attributes set through the first pointer in
  between; the registry then holds exactly one edge from X to Y, which carries L1 and
  the attributes set through the first pointer, and the returned pointer points at it.
\<close>

theorem edge_dedup_first_wins:
  "(case Graph_Relationship g X L1 Y of (r1, g1) \<Rightarrow> Graph_Relationship g1 X L2 Y = (r1, g1)) \<and>
   (\<not> has_edge g (UID X) (UID Y) \<longrightarrow>
      (case Graph_Relationship g X L1 Y of (r1, g1) \<Rightarrow>
         (let g1' = fold (\<lambda>(k, v) h. snd (Relationship_Attribute h r1 k v)) kvs g1 in
          case Graph_Relationship g1' X L2 Y of (r2, g2) \<Rightarrow>
            r2 = r1 \<and> g2 = g1' \<and>
            edges_between g2 (UID X) (UID Y) =
              [\<lparr>From = \<lparr>RefUID = UID X, RefKind = Kind X\<rparr>, Type = L1,
                To = \<lparr>RefUID = UID Y, RefKind = Kind Y\<rparr>,
                Attr = fold (\<lambda>(k, v) m. m(k \<mapsto> v)) kvs Map.empty\<rparr>] \<and>
            deref g2 r2 = Some (hd (edges_between g2 (UID X) (UID Y))))))"
proof (intro conjI impI)
  show "case Graph_Relationship g X L1 Y of (r1, g1) \<Rightarrow> Graph_Relationship g1 X L2 Y = (r1, g1)"
  proof (cases "has_edge g (UID X) (UID Y)")
    case True
    then have "Graph_Relationship g X L1 Y = Graph_Relationship g X L2 Y"
      "snd (Graph_Relationship g X L1 Y) = g"
      by (auto simp: Graph_Relationship_def find_To_rels has_edge_find split: option.splits)
    then show ?thesis
      by (simp add: case_prod_beta prod_eq_iff)
  next
    case False
    from edge_dedup_fresh [OF False, where ?L1.0 = L1 and kvs = "[]" and ?L2.0 = L2]
    show ?thesis
      by (simp add: case_prod_beta prod_eq_iff)
  qed
next
  assume "\<not> has_edge g (UID X) (UID Y)"
  then show "case Graph_Relationship g X L1 Y of (r1, g1) \<Rightarrow>
         (let g1' = fold (\<lambda>(k, v) h. snd (Relationship_Attribute h r1 k v)) kvs g1 in
          case Graph_Relationship g1' X L2 Y of (r2, g2) \<Rightarrow>
            r2 = r1 \<and> g2 = g1' \<and>
            edges_between g2 (UID X) (UID Y) =
              [\<lparr>From = \<lparr>RefUID = UID X, RefKind = Kind X\<rparr>, Type = L1,
                To = \<lparr>RefUID = UID Y, RefKind = Kind Y\<rparr>,
                Attr = fold (\<lambda>(k, v) m. m(k \<mapsto> v)) kvs Map.empty\<rparr>] \<and>
            deref g2 r2 = Some (hd (edges_between g2 (UID X) (UID Y))))"
    by (rule edge_dedup_fresh)
qed

theorem edge_dedup_first_wins_witness:
  "\<not> has_edge (empty_Graph ''host'') (UID example_X) (UID example_Y) \<and>
   (case Graph_Relationship (empty_Graph ''host'') example_X ''Pod'' example_Y of (r1, g1) \<Rightarrow>
      case Graph_Relationship (snd (Relationship_Attribute g1 r1 ''color'' ''red''))
             example_X ''Service'' example_Y of (r2, g2) \<Rightarrow>
        r2 = r1 \<and> g2 = snd (Relationship_Attribute g1 r1 ''color'' ''red'') \<and>
        edges_between g2 ''uid-x'' ''uid-y'' =
          [\<lparr>From = \<lparr>RefUID = ''uid-x'', RefKind = ''Service''\<rparr>, Type = ''Pod'',
            To = \<lparr>RefUID = ''uid-y'', RefKind = ''Pod''\<rparr>,
            Attr = [''color'' \<mapsto> ''red'']\<rparr>])"
proof -
  have h: "\<not> has_edge (empty_Graph ''host'') (UID example_X) (UID example_Y)"
    by (simp add: has_edge_def edges_between_def rels_def empty_Graph_def)
  from edge_dedup_first_wins [where g = "empty_Graph ''host''" and X = example_X
      and Y = example_Y and ?L1.0 = "''Pod''" and kvs = "[(''color'', ''red'')]"
      and ?L2.0 = "''Service''"] h
  show ?thesis
    by (auto simp: example_X_def example_Y_def Let_def split: prod.splits)
qed

declare Graph_Node.simps [simp del]

subsection \<open>The steps of Graph.Node\<close>

lemma default_cluster_fields [simp]:
  "GetNamespace (default_cluster g obj) = GetNamespace obj"
  "GetUID (default_cluster g obj) = GetUID obj"
  "GetLabels (default_cluster g obj) = GetLabels obj"
  "GetName (default_cluster g obj) = GetName obj"
  "GetOwnerReferences (default_cluster g obj) = GetOwnerReferences obj"
  by (simp_all add: default_cluster_def)

lemma inherit_labels_fields [simp]:
  "GetClusterName (inherit_labels g obj) = GetClusterName obj"
  "GetNamespace (inherit_labels g obj) = GetNamespace obj"
  "GetUID (inherit_labels g obj) = GetUID obj"
  "GetName (inherit_labels g obj) = GetName obj"
  "GetOwnerReferences (inherit_labels g obj) = GetOwnerReferences obj"
  by (simp_all add: inherit_labels_def split: option.splits)

lemma make_maps_fields [simp]:
  "Relationships (make_maps g obj) = Relationships g"
  "clientset (make_maps g obj) = clientset g"
  by (simp_all add: make_maps_def Let_def)

lemma nodes_of_make_maps [simp]: "nodes_of (make_maps g obj) c ns = nodes_of g c ns"
  by (auto simp: make_maps_def Let_def nodes_of_def namespaces_of_def split: option.splits)

lemma rels_make_maps [simp]: "rels (make_maps g obj) a = rels g a"
  by (simp add: rels_def)

lemma Node_store_fields [simp]:
  "Relationships (Node_store g obj node) = Relationships g"
  "clientset (Node_store g obj node) = clientset g"
  by (simp_all add: Node_store_def)

lemma nodes_of_Node_store:
  "nodes_of (Node_store g obj node) c ns u =
     (if c = GetClusterName obj \<and> ns = GetNamespace obj \<and> u = GetUID obj then Some node
      else nodes_of g c ns u)"
  by (auto simp: Node_store_def nodes_of_def namespaces_of_def split: option.splits)

lemma rels_Node_store [simp]: "rels (Node_store g obj node) a = rels g a"
  by (simp add: rels_def)

lemma Relationship_fields [simp]:
  "Nodes (snd (Graph_Relationship g from label to)) = Nodes g"
  "clientset (snd (Graph_Relationship g from label to)) = clientset g"
  by (simp_all add: Graph_Relationship_def Let_def split: option.splits)

lemma nodes_of_Relationship [simp]:
  "nodes_of (snd (Graph_Relationship g from label to)) c ns = nodes_of g c ns"
  by (simp add: nodes_of_def namespaces_of_def)

lemma Node_value_fields [simp]:
  "Labels (Node_value gvk obj) = GetLabels obj"
  "Name (Node_value gvk obj) = GetName obj"
  "Namespace (Node_value gvk obj) = GetNamespace obj"
  "UID (Node_value gvk obj) = GetUID obj"
  by (simp_all add: Node_value_def split: prod.splits)

lemma Graph_Node_unfold:
  "Graph_Node g gvk obj =
     (let obj1 = inherit_labels (make_maps g (default_cluster g obj)) (default_cluster g obj);
          g1 = make_maps g (default_cluster g obj);
          node = Node_value gvk obj1
      in if GroupKind_String gvk = ''Namespace'' then (node, obj1, g1)
         else (node, obj1, fold (owner_step obj1 node) (GetOwnerReferences obj) (Node_store g1 obj1 node)))"
  by (subst Graph_Node.simps) (simp add: Node_enter_def Let_def owner_step_def [abs_def])

lemma Graph_Node_no_owners:
  assumes "GetOwnerReferences obj = []"
  shows "Graph_Node g gvk obj =
     (let obj1 = inherit_labels (make_maps g (default_cluster g obj)) (default_cluster g obj);
          g1 = make_maps g (default_cluster g obj);
          node = Node_value gvk obj1
      in if GroupKind_String gvk = ''Namespace'' then (node, obj1, g1)
         else (node, obj1, Node_store g1 obj1 node))"
  by (simp add: Graph_Node_unfold assms Let_def)

subsection \<open>Labels survive re-insertion\<close>

lemma labels_kept_refl: "labels_kept g g"
  by (simp add: labels_kept_def)

lemma labels_kept_trans: "labels_kept g h \<Longrightarrow> labels_kept h k \<Longrightarrow> labels_kept g k"
  unfolding labels_kept_def by metis

lemma labels_kept_same_nodes:
  "(\<And>c ns. nodes_of g' c ns = nodes_of g c ns) \<Longrightarrow> labels_kept g g'"
  by (simp add: labels_kept_def)

lemma inherit_labels_stored:
  assumes "nodes_of g (GetClusterName obj) (GetNamespace obj) (GetUID obj) = Some n"
    and "Labels n \<noteq> Map.empty"
  shows "GetLabels (inherit_labels g obj) = Labels n"
  using assms by (simp add: inherit_labels_def)

lemma labels_kept_store:
  "labels_kept g (Node_store g (inherit_labels g obj) (Node_value gvk (inherit_labels g obj)))"
  unfolding labels_kept_def
  by (auto simp: nodes_of_Node_store inherit_labels_stored)

lemma labels_kept_no_owners:
  assumes "GetOwnerReferences obj = []"
  shows "labels_kept g (snd (snd (Graph_Node g gvk obj)))"
proof -
  let ?o = "default_cluster g obj"
  let ?g1 = "make_maps g ?o"
  have a: "labels_kept g ?g1"
    by (rule labels_kept_same_nodes) simp
  have b: "labels_kept ?g1 (Node_store ?g1 (inherit_labels ?g1 ?o) (Node_value gvk (inherit_labels ?g1 ?o)))"
    by (rule labels_kept_store)
  show ?thesis
    using a labels_kept_trans [OF a b]
    by (simp add: Graph_Node_no_owners [OF assms] Let_def)
qed

lemma labels_kept_owner_step: "labels_kept g (owner_step obj node ownerRef g)"
proof -
  let ?gvk = "FromAPIVersionAndKind (OwnerAPIVersion ownerRef) (OwnerKind ownerRef)"
  let ?r = "Graph_Node g ?gvk (owner_meta obj ownerRef)"
  have "labels_kept g (snd (snd ?r))"
    by (rule labels_kept_no_owners) (simp add: owner_meta_def)
  moreover have "labels_kept (snd (snd ?r))
      (snd (Graph_Relationship (snd (snd ?r)) (fst ?r) (Kind node) node))"
    by (rule labels_kept_same_nodes) simp
  ultimately show ?thesis
    by (auto simp: owner_step_def split: prod.splits intro: labels_kept_trans)
qed

lemma labels_kept_owner_fold: "labels_kept g (fold (owner_step obj node) refs g)"
proof (induction refs arbitrary: g)
  case Nil
  show ?case by (simp add: labels_kept_refl)
next
  case (Cons r refs)
  from labels_kept_trans [OF labels_kept_owner_step Cons.IH]
  show ?case by simp
qed

lemma labels_kept_Graph_Node: "labels_kept g (snd (snd (Graph_Node g gvk obj)))"
proof -
  let ?o = "default_cluster g obj"
  let ?g1 = "make_maps g ?o"
  let ?o1 = "inherit_labels ?g1 ?o"
  let ?g2 = "Node_store ?g1 ?o1 (Node_value gvk ?o1)"
  have a: "labels_kept g ?g1"
    by (rule labels_kept_same_nodes) simp
  have b: "labels_kept ?g1 ?g2"
    by (rule labels_kept_store)
  have c: "labels_kept ?g2 (fold (owner_step ?o1 (Node_value gvk ?o1)) (GetOwnerReferences obj) ?g2)"
    by (rule labels_kept_owner_fold)
  show ?thesis
    using a labels_kept_trans [OF a labels_kept_trans [OF b c]]
    by (simp add: Graph_Node_unfold Let_def)
qed

lemma labels_kept_Node_all: "labels_kept g (Node_all calls g)"
proof (induction calls arbitrary: g)
  case Nil
  show ?case by (simp add: Node_all_def labels_kept_refl)
next
  case (Cons call calls)
  obtain gvk obj where call: "call = (gvk, obj)" by (cases call)
  from labels_kept_trans [OF labels_kept_Graph_Node Cons.IH]
  show ?case by (simp add: Node_all_def call)
qed

lemma Graph_Node_fst:
  "fst (Graph_Node g gvk obj) =
     Node_value gvk (inherit_labels (make_maps g (default_cluster g obj)) (default_cluster g obj))"
  by (simp add: Graph_Node_unfold Let_def)

text \<open>
  C3. Let the key (cluster, namespace, UID) hold a node with a non-empty label set.
  A call of Graph.Node whose object falls under that key returns a node with the stored
  labels, whatever labels the object supplies (the empty set among them); and after any
  sequence of calls of Graph.Node the key still holds a node with these labels, so they
  never become empty.
\<close>

theorem labels_survive_reinsertion:
  assumes "nodes_of g c ns u = Some n" and "Labels n \<noteq> Map.empty"
  shows "(key_of g obj = (c, ns, u) \<longrightarrow> Labels (fst (Graph_Node g gvk obj)) = Labels n) \<and>
         (\<exists>n'. nodes_of (snd (snd (Graph_Node g gvk obj))) c ns u = Some n' \<and> Labels n' = Labels n) \<and>
         (\<exists>n'. nodes_of (Node_all calls g) c ns u = Some n' \<and> Labels n' = Labels n)"
proof (intro conjI impI)
  assume "key_of g obj = (c, ns, u)"
  then have k: "GetClusterName (default_cluster g obj) = c" "GetNamespace obj = ns" "GetUID obj = u"
    by (simp_all add: key_of_def)
  let ?o = "default_cluster g obj"
  have "nodes_of (make_maps g ?o) (GetClusterName ?o) (GetNamespace ?o) (GetUID ?o) = Some n"
    using assms(1) k by simp
  from inherit_labels_stored [OF this assms(2)]
  show "Labels (fst (Graph_Node g gvk obj)) = Labels n"
    by (simp add: Graph_Node_fst)
next
  show "\<exists>n'. nodes_of (snd (snd (Graph_Node g gvk obj))) c ns u = Some n' \<and> Labels n' = Labels n"
    using labels_kept_Graph_Node [of g gvk obj] assms by (simp add: labels_kept_def)
next
  show "\<exists>n'. nodes_of (Node_all calls g) c ns u = Some n' \<and> Labels n' = Labels n"
    using labels_kept_Node_all [of g calls] assms by (simp add: labels_kept_def)
qed

lemma empty_Graph_fields [simp]:
  "nodes_of (empty_Graph host) c ns = Map.empty"
  "rels (empty_Graph host) a = []"
  "clientset (empty_Graph host) = host"
  "Relationships (empty_Graph host) = Map.empty"
  by (simp_all add: empty_Graph_def nodes_of_def namespaces_of_def rels_def)

lemma example_labelled_node:
  "nodes_of example_labelled ''host'' ''default'' ''uid-p'' =
     Some \<lparr>APIVersion = ''v1'', Kind = ''Pod'', Labels = [''a'' \<mapsto> ''1''], Name = ''p'',
           Namespace = ''default'', UID = ''uid-p''\<rparr>"
  by (simp add: example_labelled_def example_pod_def example_gvk_pod_def
      Graph_Node_no_owners Let_def nodes_of_Node_store default_cluster_def inherit_labels_def
      GroupKind_String_def Node_value_def ToAPIVersionAndKind_def)

theorem labels_survive_reinsertion_witness:
  "nodes_of example_labelled ''host'' ''default'' ''uid-p'' =
     Some \<lparr>APIVersion = ''v1'', Kind = ''Pod'', Labels = [''a'' \<mapsto> ''1''], Name = ''p'',
           Namespace = ''default'', UID = ''uid-p''\<rparr> \<and>
   [''a'' \<mapsto> ''1''] \<noteq> (Map.empty :: Labels) \<and>
   key_of example_labelled example_pod_bare = (''host'', ''default'', ''uid-p'') \<and>
   GetLabels example_pod_bare = Map.empty \<and>
   Labels (fst (Graph_Node example_labelled example_gvk_pod example_pod_bare)) = [''a'' \<mapsto> ''1''] \<and>
   (\<exists>n'. nodes_of (snd (snd (Graph_Node example_labelled example_gvk_pod example_pod_bare)))
            ''host'' ''default'' ''uid-p'' = Some n' \<and>
         Labels n' = [''a'' \<mapsto> ''1''])"
proof -
  have k: "key_of example_labelled example_pod_bare = (''host'', ''default'', ''uid-p'')"
    by (simp add: key_of_def example_pod_bare_def example_pod_def default_cluster_def
        example_labelled_def Graph_Node_no_owners Let_def GroupKind_String_def
        example_gvk_pod_def)
  have e: "GetLabels example_pod_bare = Map.empty"
    by (simp add: example_pod_bare_def)
  from labels_survive_reinsertion [OF example_labelled_node, of example_pod_bare example_gvk_pod "[]"] k e
  show ?thesis
    using example_labelled_node by simp
qed

subsection \<open>Namespace objects\<close>

lemma Node_value_Kind [simp]: "Kind (Node_value gvk obj) = GVKind gvk"
  by (simp add: Node_value_def ToAPIVersionAndKind_def)

lemma GroupKind_String_Namespace:
  "(GroupKind_String gvk = ''Namespace'') = (Group gvk = [] \<and> GVKind gvk = ''Namespace'')"
proof
  assume a: "GroupKind_String gvk = ''Namespace''"
  show "Group gvk = [] \<and> GVKind gvk = ''Namespace''"
  proof (cases "Group gvk = []")
    case True
    with a show ?thesis by (simp add: GroupKind_String_def)
  next
    case False
    with a have "GVKind gvk @ ''.'' @ Group gvk = ''Namespace''"
      by (simp add: GroupKind_String_def)
    then have "CHR ''.'' \<in> set ''Namespace''"
      by (metis in_set_conv_decomp append_Cons append_Nil)
    then show ?thesis by simp
  qed
next
  assume "Group gvk = [] \<and> GVKind gvk = ''Namespace''"
  then show "GroupKind_String gvk = ''Namespace''"
    by (simp add: GroupKind_String_def)
qed

lemma stored_not_core_Namespace:
  assumes "GroupKind_String gvk \<noteq> ''Namespace''"
  shows "\<not> core_Namespace (Node_value gvk obj)"
proof
  assume c: "core_Namespace (Node_value gvk obj)"
  then have k: "GVKind gvk = ''Namespace''"
    by (simp add: core_Namespace_def)
  with assms have g: "Group gvk \<noteq> []"
    by (simp add: GroupKind_String_Namespace)
  with k have "APIVersion (Node_value gvk obj) = Group gvk @ ''/'' @ Version gvk"
    by (simp add: Node_value_def ToAPIVersionAndKind_def)
  with c show False
    by (simp add: core_Namespace_def)
qed

lemma none_core_no_owners:
  assumes "none_core g" and "GetOwnerReferences obj = []"
  shows "none_core (snd (snd (Graph_Node g gvk obj)))"
  using assms(1) stored_not_core_Namespace [of gvk]
  by (auto simp: Graph_Node_no_owners [OF assms(2)] Let_def none_core_def nodes_of_Node_store
      split: if_splits)

lemma none_core_owner_step: "none_core g \<Longrightarrow> none_core (owner_step obj node ownerRef g)"
proof -
  assume a: "none_core g"
  let ?r = "Graph_Node g (FromAPIVersionAndKind (OwnerAPIVersion ownerRef) (OwnerKind ownerRef))
              (owner_meta obj ownerRef)"
  have "none_core (snd (snd ?r))"
    by (rule none_core_no_owners [OF a]) (simp add: owner_meta_def)
  then show ?thesis
    by (simp add: owner_step_def none_core_def split: prod.splits)
qed

lemma none_core_owner_fold: "none_core g \<Longrightarrow> none_core (fold (owner_step obj node) refs g)"
  by (induction refs arbitrary: g) (simp_all add: none_core_owner_step)

lemma none_core_Graph_Node:
  assumes "none_core g"
  shows "none_core (snd (snd (Graph_Node g gvk obj)))"
proof (cases "GroupKind_String gvk = ''Namespace''")
  case True
  with assms show ?thesis
    by (simp add: Graph_Node_unfold Let_def none_core_def)
next
  case False
  let ?o = "default_cluster g obj"
  let ?g1 = "make_maps g ?o"
  let ?o1 = "inherit_labels ?g1 ?o"
  have "none_core (Node_store ?g1 ?o1 (Node_value gvk ?o1))"
    using assms stored_not_core_Namespace [OF False]
    by (auto simp: none_core_def nodes_of_Node_store split: if_splits)
  from none_core_owner_fold [OF this] False show ?thesis
    by (simp add: Graph_Node_unfold Let_def)
qed

lemma none_core_Node_all: "none_core g \<Longrightarrow> none_core (Node_all calls g)"
proof (induction calls arbitrary: g)
  case Nil
  then show ?case by (simp add: Node_all_def)
next
  case (Cons call calls)
  obtain gvk obj where call: "call = (gvk, obj)" by (cases call)
  from Cons.IH [OF none_core_Graph_Node [OF Cons.prems, of gvk obj]]
  show ?case by (simp add: Node_all_def call)
qed

text \<open>
  C4, as amended. For every object whose group and kind print as "Namespace" (the kind
  Namespace with an empty API group), Graph.Node returns a node of kind Namespace built
  from the object and writes no node: every key reads as before the call and the
  relationships are unchanged. A registry built from the empty graph by any sequence of
  calls of Graph.Node never holds a node of kind Namespace whose API version names no
  group.
\<close>

theorem core_namespace_not_stored:
  "(GroupKind_String gvk = ''Namespace'' \<longrightarrow>
      Kind (fst (Graph_Node g gvk obj)) = ''Namespace'' \<and>
      UID (fst (Graph_Node g gvk obj)) = GetUID obj \<and>
      Name (fst (Graph_Node g gvk obj)) = GetName obj \<and>
      (\<forall>c ns. nodes_of (snd (snd (Graph_Node g gvk obj))) c ns = nodes_of g c ns) \<and>
      Relationships (snd (snd (Graph_Node g gvk obj))) = Relationships g) \<and>
   (\<forall>c ns u n. nodes_of (Node_all calls (empty_Graph host)) c ns u = Some n \<longrightarrow>
      \<not> core_Namespace n)"
proof (intro conjI impI allI)
  assume ns: "GroupKind_String gvk = ''Namespace''"
  then show "Kind (fst (Graph_Node g gvk obj)) = ''Namespace''"
    by (simp add: Graph_Node_fst GroupKind_String_Namespace)
  show "UID (fst (Graph_Node g gvk obj)) = GetUID obj"
    by (simp add: Graph_Node_fst)
  show "Name (fst (Graph_Node g gvk obj)) = GetName obj"
    by (simp add: Graph_Node_fst)
  show "nodes_of (snd (snd (Graph_Node g gvk obj))) c ns = nodes_of g c ns" for c ns
    using ns by (simp add: Graph_Node_unfold Let_def)
  show "Relationships (snd (snd (Graph_Node g gvk obj))) = Relationships g"
    using ns by (simp add: Graph_Node_unfold Let_def)
next
  fix c ns u n
  assume "nodes_of (Node_all calls (empty_Graph host)) c ns u = Some n"
  moreover have "none_core (Node_all calls (empty_Graph host))"
    by (rule none_core_Node_all) (simp add: none_core_def)
  ultimately show "\<not> core_Namespace n"
    by (simp add: none_core_def)
qed

lemma example_gvks:
  "Unstructured_GroupVersionKind example_namespace =
     \<lparr>Group = [], Version = ''v1'', GVKind = ''Namespace''\<rparr>"
  "Unstructured_GroupVersionKind example_custom_namespace =
     \<lparr>Group = ''example.com'', Version = ''v1'', GVKind = ''Namespace''\<rparr>"
  by (simp_all add: Unstructured_GroupVersionKind_def ParseGroupVersion_def
      example_namespace_def example_custom_namespace_def)

lemma example_metas:
  "metadata example_namespace =
     \<lparr>GetClusterName = [], GetNamespace = [], GetUID = ''uid-n'',
      GetLabels = Map.empty, GetName = ''team-a'', GetOwnerReferences = []\<rparr>"
  "metadata example_custom_namespace = metadata example_namespace"
  "GetKind example_custom_namespace = ''Namespace''"
  by (simp_all add: example_namespace_def example_custom_namespace_def)

theorem namespace_kind_stored_counterexample:
  "GetKind example_custom_namespace = ''Namespace'' \<and>
   nodes_of (snd (snd (Graph_Node (empty_Graph ''host'')
                (Unstructured_GroupVersionKind example_custom_namespace)
                (metadata example_custom_namespace))))
      ''host'' [] ''uid-n'' =
     Some \<lparr>APIVersion = ''example.com/v1'', Kind = ''Namespace'', Labels = Map.empty,
           Name = ''team-a'', Namespace = [], UID = ''uid-n''\<rparr>"
  by (simp add: example_gvks Graph_Node_no_owners Let_def nodes_of_Node_store
      example_metas default_cluster_def
      inherit_labels_def GroupKind_String_def Node_value_def ToAPIVersionAndKind_def)

theorem core_namespace_not_stored_witness:
  "GroupKind_String (Unstructured_GroupVersionKind example_namespace) = ''Namespace'' \<and>
   Kind (fst (Graph_Node (empty_Graph ''host'') (Unstructured_GroupVersionKind example_namespace)
                (metadata example_namespace))) = ''Namespace'' \<and>
   nodes_of (snd (snd (Graph_Node (empty_Graph ''host'')
                (Unstructured_GroupVersionKind example_namespace)
                (metadata example_namespace)))) ''host'' [] ''uid-n'' = None \<and>
   nodes_of (Node_all [(Unstructured_GroupVersionKind example_custom_namespace,
                        metadata example_custom_namespace)] (empty_Graph ''host''))
      ''host'' [] ''uid-n'' =
     Some \<lparr>APIVersion = ''example.com/v1'', Kind = ''Namespace'', Labels = Map.empty,
           Name = ''team-a'', Namespace = [], UID = ''uid-n''\<rparr> \<and>
   \<not> core_Namespace \<lparr>APIVersion = ''example.com/v1'', Kind = ''Namespace'', Labels = Map.empty,
           Name = ''team-a'', Namespace = [], UID = ''uid-n''\<rparr>"
proof -
  have h: "GroupKind_String (Unstructured_GroupVersionKind example_namespace) = ''Namespace''"
    by (simp add: example_gvks GroupKind_String_def)
  have s: "nodes_of (Node_all [(Unstructured_GroupVersionKind example_custom_namespace,
                        metadata example_custom_namespace)] (empty_Graph ''host''))
      ''host'' [] ''uid-n'' =
     Some \<lparr>APIVersion = ''example.com/v1'', Kind = ''Namespace'', Labels = Map.empty,
           Name = ''team-a'', Namespace = [], UID = ''uid-n''\<rparr>"
    by (simp add: Node_all_def example_gvks Graph_Node_no_owners Let_def nodes_of_Node_store
      example_metas default_cluster_def
      inherit_labels_def GroupKind_String_def Node_value_def ToAPIVersionAndKind_def)
  from core_namespace_not_stored [of "Unstructured_GroupVersionKind example_namespace"
      "empty_Graph ''host''" "metadata example_namespace"
      "[(Unstructured_GroupVersionKind example_custom_namespace, metadata example_custom_namespace)]"
      "''host''"] h s
  show ?thesis by simp
qed

subsection \<open>The edges that Graph.Node registers\<close>

lemma rels_Relationship:
  "rels (snd (Graph_Relationship g from label to)) a =
     (if a = UID from \<and> \<not> has_edge g (UID from) (UID to)
      then rels g a @ [\<lparr>From = \<lparr>RefUID = UID from, RefKind = Kind from\<rparr>, Type = label,
                         To = \<lparr>RefUID = UID to, RefKind = Kind to\<rparr>, Attr = Map.empty\<rparr>]
      else rels g a)"
proof (cases "has_edge g (UID from) (UID to)")
  case True
  from Relationship_existing(1) [OF True refl refl] True show ?thesis by simp
next
  case False
  from Relationship_fresh [OF False refl refl] False show ?thesis by simp
qed

lemma rels_no_owners:
  "GetOwnerReferences obj = [] \<Longrightarrow> rels (snd (snd (Graph_Node g gvk obj))) a = rels g a"
  by (simp add: Graph_Node_no_owners Let_def)

lemma clientset_no_owners:
  "GetOwnerReferences obj = [] \<Longrightarrow> clientset (snd (snd (Graph_Node g gvk obj))) = clientset g"
  by (simp add: Graph_Node_no_owners Let_def)

lemma GVKind_FromAPIVersionAndKind [simp]: "GVKind (FromAPIVersionAndKind v k) = k"
  by (simp add: FromAPIVersionAndKind_def split: option.splits)

lemma owner_meta_fields [simp]:
  "GetClusterName (owner_meta obj ownerRef) = []"
  "GetNamespace (owner_meta obj ownerRef) = GetNamespace obj"
  "GetUID (owner_meta obj ownerRef) = OwnerUID ownerRef"
  "GetLabels (owner_meta obj ownerRef) = Map.empty"
  "GetName (owner_meta obj ownerRef) = OwnerName ownerRef"
  "GetOwnerReferences (owner_meta obj ownerRef) = []"
  by (simp_all add: owner_meta_def)

lemma owner_step_alt:
  "owner_step obj node ownerRef g =
     snd (Graph_Relationship
            (snd (snd (Graph_Node g (FromAPIVersionAndKind (OwnerAPIVersion ownerRef) (OwnerKind ownerRef))
                        (owner_meta obj ownerRef))))
            (fst (Graph_Node g (FromAPIVersionAndKind (OwnerAPIVersion ownerRef) (OwnerKind ownerRef))
                    (owner_meta obj ownerRef)))
            (Kind node) node)"
  by (simp add: owner_step_def case_prod_beta)

lemma rels_owner_step:
  "rels (owner_step obj node ownerRef g) a =
     (if a = OwnerUID ownerRef \<and> \<not> has_edge g (OwnerUID ownerRef) (UID node)
      then rels g a @ [owner_edge ownerRef node]
      else rels g a)"
proof -
  let ?r = "Graph_Node g (FromAPIVersionAndKind (OwnerAPIVersion ownerRef) (OwnerKind ownerRef))
              (owner_meta obj ownerRef)"
  have r: "rels (snd (snd ?r)) = rels g"
    by (rule ext) (simp add: rels_no_owners)
  then have h: "has_edge (snd (snd ?r)) x y = has_edge g x y" for x y
    by (simp add: has_edge_def edges_between_def)
  have f: "UID (fst ?r) = OwnerUID ownerRef" "Kind (fst ?r) = OwnerKind ownerRef"
    by (simp_all add: Graph_Node_fst)
  show ?thesis
    by (simp add: owner_step_alt rels_Relationship r h f owner_edge_def)
qed

lemma clientset_owner_step [simp]: "clientset (owner_step obj node ownerRef g) = clientset g"
  by (simp add: owner_step_alt clientset_no_owners)

lemma clientset_owner_fold [simp]: "clientset (fold (owner_step obj node) refs g) = clientset g"
  by (induction refs arbitrary: g) simp_all

lemma edges_owner_step:
  "edges_between (owner_step obj node ownerRef g) a b =
     (if a = OwnerUID ownerRef \<and> b = UID node \<and> edges_between g a b = []
      then [owner_edge ownerRef node]
      else edges_between g a b)"
  by (auto simp: edges_between_def rels_owner_step has_edge_def owner_edge_def filter_empty_conv)

lemma edges_owner_fold:
  "edges_between (fold (owner_step obj node) refs g) a b =
     (if edges_between g a b \<noteq> [] \<or> b \<noteq> UID node then edges_between g a b
      else case filter (\<lambda>r. OwnerUID r = a) refs of
             [] \<Rightarrow> []
           | r # _ \<Rightarrow> [owner_edge r node])"
proof (induction refs arbitrary: g)
  case Nil
  show ?case by auto
next
  case (Cons r refs)
  have "fold (owner_step obj node) (r # refs) g =
          fold (owner_step obj node) refs (owner_step obj node r g)"
    by simp
  then have "edges_between (fold (owner_step obj node) (r # refs) g) a b =
     (if edges_between (owner_step obj node r g) a b \<noteq> [] \<or> b \<noteq> UID node
      then edges_between (owner_step obj node r g) a b
      else case filter (\<lambda>r. OwnerUID r = a) refs of
             [] \<Rightarrow> []
           | r # _ \<Rightarrow> [owner_edge r node])"
    by (simp only: Cons.IH)
  then show ?case
    by (cases "a = OwnerUID r"; cases "b = UID node"; cases "edges_between g a b = []")
       (simp_all add: edges_owner_step)
qed

lemma edges_Graph_Node:
  "edges_between (snd (snd (Graph_Node g gvk obj))) a b =
     (if GroupKind_String gvk = ''Namespace'' \<or> edges_between g a b \<noteq> [] \<or> b \<noteq> GetUID obj
      then edges_between g a b
      else case filter (\<lambda>r. OwnerUID r = a) (GetOwnerReferences obj) of
             [] \<Rightarrow> []
           | r # _ \<Rightarrow> [owner_edge r (fst (Graph_Node g gvk obj))])"
proof (cases "GroupKind_String gvk = ''Namespace''")
  case True
  then show ?thesis
    by (simp add: Graph_Node_unfold Let_def edges_between_def)
next
  case False
  let ?o = "default_cluster g obj"
  let ?g1 = "make_maps g ?o"
  let ?o1 = "inherit_labels ?g1 ?o"
  let ?n = "Node_value gvk ?o1"
  have g': "snd (snd (Graph_Node g gvk obj)) =
              fold (owner_step ?o1 ?n) (GetOwnerReferences obj) (Node_store ?g1 ?o1 ?n)"
    using False by (simp add: Graph_Node_unfold Let_def)
  have e: "edges_between (Node_store ?g1 ?o1 ?n) a b = edges_between g a b"
    by (simp add: edges_between_def)
  have n: "fst (Graph_Node g gvk obj) = ?n" "UID ?n = GetUID obj"
    by (simp_all add: Graph_Node_fst)
  show ?thesis
    unfolding g' edges_owner_fold e n using False by simp
qed

subsection \<open>The nodes that Graph.Node stores\<close>

lemma nodes_of_no_owners:
  assumes "GetOwnerReferences obj = []"
  shows "nodes_of (snd (snd (Graph_Node g gvk obj))) c ns u =
     (if GroupKind_String gvk \<noteq> ''Namespace'' \<and> (c, ns, u) = key_of g obj
      then Some (fst (Graph_Node g gvk obj))
      else nodes_of g c ns u)"
  by (auto simp: Graph_Node_no_owners [OF assms] Let_def nodes_of_Node_store key_of_def)

lemma key_of_owner_meta [simp]:
  "key_of g (owner_meta obj ownerRef) = (clientset g, GetNamespace obj, OwnerUID ownerRef)"
  by (simp add: key_of_def default_cluster_def)

lemma nodes_of_owner_step:
  "nodes_of (owner_step obj node ownerRef g) c ns u =
     (if GroupKind_String (FromAPIVersionAndKind (OwnerAPIVersion ownerRef) (OwnerKind ownerRef))
           \<noteq> ''Namespace'' \<and>
         (c, ns, u) = (clientset g, GetNamespace obj, OwnerUID ownerRef)
      then Some (fst (Graph_Node g
                   (FromAPIVersionAndKind (OwnerAPIVersion ownerRef) (OwnerKind ownerRef))
                   (owner_meta obj ownerRef)))
      else nodes_of g c ns u)"
  by (simp add: owner_step_alt nodes_of_no_owners)

lemma owner_node_fields:
  "UID (fst (Graph_Node g (FromAPIVersionAndKind v (OwnerKind ownerRef)) (owner_meta obj ownerRef)))
     = OwnerUID ownerRef"
  "Name (fst (Graph_Node g (FromAPIVersionAndKind v (OwnerKind ownerRef)) (owner_meta obj ownerRef)))
     = OwnerName ownerRef"
  "Kind (fst (Graph_Node g (FromAPIVersionAndKind v (OwnerKind ownerRef)) (owner_meta obj ownerRef)))
     = OwnerKind ownerRef"
  "Namespace (fst (Graph_Node g (FromAPIVersionAndKind v (OwnerKind ownerRef)) (owner_meta obj ownerRef)))
     = GetNamespace obj"
  by (simp_all add: Graph_Node_fst)

lemma ancestor_owner_fold:
  assumes "set refs \<subseteq> set allrefs"
    and "(\<exists>n. \<exists>r \<in> set allrefs. OwnerUID r = a \<and>
            nodes_of h (clientset h) (GetNamespace obj) a = Some n \<and>
            UID n = a \<and> Name n = OwnerName r \<and> Kind n = OwnerKind r \<and>
            Namespace n = GetNamespace obj) \<or>
         (\<exists>r \<in> set refs. OwnerUID r = a \<and>
            GroupKind_String (FromAPIVersionAndKind (OwnerAPIVersion r) (OwnerKind r))
              \<noteq> ''Namespace'')"
  shows "\<exists>n. \<exists>r \<in> set allrefs. OwnerUID r = a \<and>
            nodes_of (fold (owner_step obj node) refs h) (clientset h) (GetNamespace obj) a = Some n \<and>
            UID n = a \<and> Name n = OwnerName r \<and> Kind n = OwnerKind r \<and>
            Namespace n = GetNamespace obj"
  using assms
proof (induction refs arbitrary: h)
  case Nil
  then show ?case by simp
next
  case (Cons x refs)
  let ?h = "owner_step obj node x h"
  let ?stored = "GroupKind_String (FromAPIVersionAndKind (OwnerAPIVersion x) (OwnerKind x))
                   \<noteq> ''Namespace'' \<and> OwnerUID x = a"
  have sub: "set refs \<subseteq> set allrefs" and x: "x \<in> set allrefs"
    using Cons.prems(1) by auto
  have "(\<exists>n. \<exists>r \<in> set allrefs. OwnerUID r = a \<and>
            nodes_of ?h (clientset ?h) (GetNamespace obj) a = Some n \<and>
            UID n = a \<and> Name n = OwnerName r \<and> Kind n = OwnerKind r \<and>
            Namespace n = GetNamespace obj) \<or>
         (\<exists>r \<in> set refs. OwnerUID r = a \<and>
            GroupKind_String (FromAPIVersionAndKind (OwnerAPIVersion r) (OwnerKind r))
              \<noteq> ''Namespace'')"
  proof (cases ?stored)
    case True
    then have "nodes_of ?h (clientset ?h) (GetNamespace obj) a =
        Some (fst (Graph_Node h (FromAPIVersionAndKind (OwnerAPIVersion x) (OwnerKind x))
                     (owner_meta obj x)))"
      by (simp add: nodes_of_owner_step)
    with True x show ?thesis
      by (intro disjI1 exI [of _ "fst (Graph_Node h (FromAPIVersionAndKind (OwnerAPIVersion x) (OwnerKind x))
                     (owner_meta obj x))"] bexI [of _ x]) (simp_all add: owner_node_fields)
  next
    case False
    have cs: "clientset ?h = clientset h" by simp
    from False have same: "nodes_of ?h (clientset h) (GetNamespace obj) a =
                     nodes_of h (clientset h) (GetNamespace obj) a"
      by (auto simp: nodes_of_owner_step)
    from Cons.prems(2) False show ?thesis
      unfolding cs same by auto
  qed
  from Cons.IH [OF sub this] show ?case by simp
qed

subsection \<open>Owner edges, and the example of a Deployment and its ReplicaSet\<close>

lemma NewGraph_alt:
  "NewGraph host ex objs processed p =
     (case NewGraph_loop ex processed objs (empty_Graph host) [] p of
        (g, errs, p) \<Rightarrow> (g, NewAggregate errs, p))"
  by (simp add: NewGraph_def empty_Graph_def)

lemma example_DR_gvk:
  "Unstructured_GroupVersionKind example_D =
     \<lparr>Group = ''apps'', Version = ''v1'', GVKind = ''Deployment''\<rparr>"
  "Unstructured_GroupVersionKind example_R =
     \<lparr>Group = ''apps'', Version = ''v1'', GVKind = ''ReplicaSet''\<rparr>"
  "FromAPIVersionAndKind ''apps/v1'' k = \<lparr>Group = ''apps'', Version = ''v1'', GVKind = k\<rparr>"
  by (simp_all add: Unstructured_GroupVersionKind_def FromAPIVersionAndKind_def
      ParseGroupVersion_def example_D_def example_R_def)


lemma example_DR_meta:
  "metadata example_D =
     \<lparr>GetClusterName = [], GetNamespace = ''default'',
      GetUID = ''11111111-1111-1111-1111-111111111111'',
      GetLabels = [''app'' \<mapsto> ''web''], GetName = ''web'', GetOwnerReferences = []\<rparr>"
  "metadata example_R =
     \<lparr>GetClusterName = [], GetNamespace = ''default'',
      GetUID = ''22222222-2222-2222-2222-222222222222'',
      GetLabels = [''app'' \<mapsto> ''web''], GetName = ''web-5d4f'',
      GetOwnerReferences =
        [\<lparr>OwnerAPIVersion = ''apps/v1'', OwnerKind = ''Deployment'', OwnerName = ''web'',
          OwnerUID = ''11111111-1111-1111-1111-111111111111''\<rparr>]\<rparr>"
  "GetAPIVersion example_D = ''apps/v1''"
  "GetAPIVersion example_R = ''apps/v1''"
  by (simp_all add: example_D_def example_R_def)

lemma example_D_step:
  assumes "clientset g = ''host''"
    and "nodes_of g ''host'' ''default'' ''11111111-1111-1111-1111-111111111111'' = None"
  shows "nodes_of (snd (snd (Graph_Node g (Unstructured_GroupVersionKind example_D) (metadata example_D)))) c ns u =
     (if (c, ns, u) = (''host'', ''default'', ''11111111-1111-1111-1111-111111111111'')
       then Some \<lparr>APIVersion = ''apps/v1'', Kind = ''Deployment'', Labels = [''app'' \<mapsto> ''web''],
                  Name = ''web'', Namespace = ''default'',
                  UID = ''11111111-1111-1111-1111-111111111111''\<rparr>
       else nodes_of g c ns u)"
   and "rels (snd (snd (Graph_Node g (Unstructured_GroupVersionKind example_D) (metadata example_D)))) a = rels g a"
   and "clientset (snd (snd (Graph_Node g (Unstructured_GroupVersionKind example_D) (metadata example_D)))) = ''host''"
  using assms
  by (simp_all add: nodes_of_no_owners rels_no_owners clientset_no_owners key_of_def
      Graph_Node_fst example_DR_gvk example_DR_meta Node_value_def ToAPIVersionAndKind_def
      inherit_labels_def default_cluster_def GroupKind_String_def)


lemma example_R_step:
  assumes "clientset g = ''host''"
    and "nodes_of g ''host'' ''default'' ''11111111-1111-1111-1111-111111111111'' =
      Some \<lparr>APIVersion = ''apps/v1'', Kind = ''Deployment'', Labels = [''app'' \<mapsto> ''web''],
                  Name = ''web'', Namespace = ''default'',
                  UID = ''11111111-1111-1111-1111-111111111111''\<rparr>"
    and "nodes_of g ''host'' ''default'' ''22222222-2222-2222-2222-222222222222'' = None"
    and "rels g ''11111111-1111-1111-1111-111111111111'' = []"
  shows "nodes_of (snd (snd (Graph_Node g (Unstructured_GroupVersionKind example_R) (metadata example_R)))) c ns u =
     (if (c, ns, u) = (''host'', ''default'', ''22222222-2222-2222-2222-222222222222'')
       then Some \<lparr>APIVersion = ''apps/v1'', Kind = ''ReplicaSet'', Labels = [''app'' \<mapsto> ''web''],
                  Name = ''web-5d4f'', Namespace = ''default'',
                  UID = ''22222222-2222-2222-2222-222222222222''\<rparr>
       else nodes_of g c ns u)"
   and "rels (snd (snd (Graph_Node g (Unstructured_GroupVersionKind example_R) (metadata example_R)))) a =
      (if a = ''11111111-1111-1111-1111-111111111111''
       then [\<lparr>From = \<lparr>RefUID = ''11111111-1111-1111-1111-111111111111'', RefKind = ''Deployment''\<rparr>,
              Type = ''ReplicaSet'',
              To = \<lparr>RefUID = ''22222222-2222-2222-2222-222222222222'', RefKind = ''ReplicaSet''\<rparr>,
              Attr = Map.empty\<rparr>]
       else rels g a)"
proof -
  define m where "m = metadata example_R"
  define gvk where "gvk = Unstructured_GroupVersionKind example_R"
  define ref where "ref = \<lparr>OwnerAPIVersion = ''apps/v1'', OwnerKind = ''Deployment'',
          OwnerName = ''web'', OwnerUID = ''11111111-1111-1111-1111-111111111111''\<rparr>"
  define ob where "ob = default_cluster g m"
  define g1 where "g1 = make_maps g ob"
  define o1 where "o1 = inherit_labels g1 ob"
  define n where "n = Node_value gvk o1"
  define g2 where "g2 = Node_store g1 o1 n"
  have m: "GetClusterName m = []" "GetNamespace m = ''default''"
    "GetUID m = ''22222222-2222-2222-2222-222222222222''" "GetLabels m = [''app'' \<mapsto> ''web'']"
    "GetName m = ''web-5d4f''" "GetOwnerReferences m = [ref]"
    by (simp_all add: m_def ref_def example_DR_meta)
  have gvk: "gvk = \<lparr>Group = ''apps'', Version = ''v1'', GVKind = ''ReplicaSet''\<rparr>"
    by (simp add: gvk_def example_DR_gvk)
  have nons: "GroupKind_String gvk \<noteq> ''Namespace''"
    by (simp add: gvk GroupKind_String_def)
  have ob: "GetClusterName ob = ''host''"
    using assms(1) by (simp add: ob_def default_cluster_def m)
  have o1: "o1 = ob"
    using assms(3) by (simp add: o1_def g1_def inherit_labels_def ob) (simp add: ob_def m)
  have o1f: "GetClusterName o1 = ''host''" "GetNamespace o1 = ''default''"
    "GetUID o1 = ''22222222-2222-2222-2222-222222222222''" "GetLabels o1 = [''app'' \<mapsto> ''web'']"
    "GetName o1 = ''web-5d4f''"
    by (simp_all add: o1 ob) (simp_all add: ob_def m)
  have n: "n = \<lparr>APIVersion = ''apps/v1'', Kind = ''ReplicaSet'', Labels = [''app'' \<mapsto> ''web''],
                  Name = ''web-5d4f'', Namespace = ''default'',
                  UID = ''22222222-2222-2222-2222-222222222222''\<rparr>"
    by (simp add: n_def Node_value_def ToAPIVersionAndKind_def gvk o1f)
  have g': "snd (snd (Graph_Node g gvk m)) = owner_step o1 n ref g2"
    using nons
    by (simp add: Graph_Node_unfold Let_def m ob_def [symmetric] g1_def [symmetric]
        o1_def [symmetric] n_def [symmetric] g2_def [symmetric])
  have refgvk: "FromAPIVersionAndKind (OwnerAPIVersion ref) (OwnerKind ref) =
                  \<lparr>Group = ''apps'', Version = ''v1'', GVKind = ''Deployment''\<rparr>"
    by (simp add: ref_def example_DR_gvk)
  have g2c: "clientset g2 = ''host''"
    using assms(1) by (simp add: g2_def g1_def)
  have g2n: "nodes_of g2 c ns u =
               (if (c, ns, u) = (''host'', ''default'', ''22222222-2222-2222-2222-222222222222'')
                then Some n else nodes_of g c ns u)" for c ns u
    by (simp add: g2_def nodes_of_Node_store o1f g1_def)
  have own: "fst (Graph_Node g2 \<lparr>Group = ''apps'', Version = ''v1'', GVKind = ''Deployment''\<rparr>
                    (owner_meta o1 ref)) =
      \<lparr>APIVersion = ''apps/v1'', Kind = ''Deployment'', Labels = [''app'' \<mapsto> ''web''],
                  Name = ''web'', Namespace = ''default'',
                  UID = ''11111111-1111-1111-1111-111111111111''\<rparr>"
    using assms(2)
    by (simp add: Graph_Node_fst Node_value_def ToAPIVersionAndKind_def
        inherit_labels_def default_cluster_def g2c g2n o1f ref_def)
  have "nodes_of (snd (snd (Graph_Node g gvk m))) c ns u =
     (if (c, ns, u) = (''host'', ''default'', ''22222222-2222-2222-2222-222222222222'')
       then Some \<lparr>APIVersion = ''apps/v1'', Kind = ''ReplicaSet'', Labels = [''app'' \<mapsto> ''web''],
                  Name = ''web-5d4f'', Namespace = ''default'',
                  UID = ''22222222-2222-2222-2222-222222222222''\<rparr>
       else nodes_of g c ns u)"
    unfolding g' nodes_of_owner_step refgvk own g2c g2n n
    using assms(2)
    by (auto simp: GroupKind_String_def o1f ref_def)
  then show "nodes_of (snd (snd (Graph_Node g (Unstructured_GroupVersionKind example_R) (metadata example_R)))) c ns u =
     (if (c, ns, u) = (''host'', ''default'', ''22222222-2222-2222-2222-222222222222'')
       then Some \<lparr>APIVersion = ''apps/v1'', Kind = ''ReplicaSet'', Labels = [''app'' \<mapsto> ''web''],
                  Name = ''web-5d4f'', Namespace = ''default'',
                  UID = ''22222222-2222-2222-2222-222222222222''\<rparr>
       else nodes_of g c ns u)"
    by (simp only: gvk_def m_def)
  have g2r: "rels g2 a = rels g a" for a
    by (simp add: g2_def g1_def)
  have "rels (snd (snd (Graph_Node g gvk m))) a =
      (if a = ''11111111-1111-1111-1111-111111111111''
       then [\<lparr>From = \<lparr>RefUID = ''11111111-1111-1111-1111-111111111111'', RefKind = ''Deployment''\<rparr>,
              Type = ''ReplicaSet'',
              To = \<lparr>RefUID = ''22222222-2222-2222-2222-222222222222'', RefKind = ''ReplicaSet''\<rparr>,
              Attr = Map.empty\<rparr>]
       else rels g a)"
    unfolding g' rels_owner_step
    using assms(4)
    by (simp add: n owner_edge_def has_edge_def edges_between_def g2r ref_def)
  then show "rels (snd (snd (Graph_Node g (Unstructured_GroupVersionKind example_R) (metadata example_R)))) a =
      (if a = ''11111111-1111-1111-1111-111111111111''
       then [\<lparr>From = \<lparr>RefUID = ''11111111-1111-1111-1111-111111111111'', RefKind = ''Deployment''\<rparr>,
              Type = ''ReplicaSet'',
              To = \<lparr>RefUID = ''22222222-2222-2222-2222-222222222222'', RefKind = ''ReplicaSet''\<rparr>,
              Attr = Map.empty\<rparr>]
       else rels g a)"
    by (simp only: gvk_def m_def)
qed

lemma Unstructured_no_extractor:
  assumes "GetAPIVersion u \<noteq> ''v1''" and "GetAPIVersion u \<noteq> ''networking.k8s.io/v1''"
    and "GetAPIVersion u \<noteq> ''route.openshift.io/v1''"
  shows "Graph_Unstructured ex g u =
           (None, snd (snd (Graph_Node g (Unstructured_GroupVersionKind u) (metadata u))))"
  using assms by (simp add: Graph_Unstructured_def case_prod_beta)

lemma example_DR_NewGraph:
  "NewGraph ''host'' ex [example_D, example_R] processed p =
     (snd (snd (Graph_Node
        (snd (snd (Graph_Node (empty_Graph ''host'') (Unstructured_GroupVersionKind example_D)
                     (metadata example_D))))
        (Unstructured_GroupVersionKind example_R) (metadata example_R))),
      None, processed (processed p))"
  by (simp add: NewGraph_alt Unstructured_no_extractor example_DR_meta NewAggregate_def)

lemma filter_hd_in:
  "x \<in> set xs \<Longrightarrow> P x \<Longrightarrow> \<exists>y ys. filter P xs = y # ys \<and> y \<in> set xs \<and> P y"
  by (induction xs) auto

lemma has_edge_kept_Graph_Node:
  "has_edge g a b \<Longrightarrow> has_edge (snd (snd (Graph_Node g gvk obj))) a b"
  by (simp add: has_edge_def edges_Graph_Node)

lemma owner_edges_Graph_Node:
  assumes "GroupKind_String gvk \<noteq> ''Namespace''" and "ref \<in> set (GetOwnerReferences obj)"
  shows "has_edge (snd (snd (Graph_Node g gvk obj))) (OwnerUID ref) (GetUID obj)"
proof (cases "has_edge g (OwnerUID ref) (GetUID obj)")
  case True
  then show ?thesis by (rule has_edge_kept_Graph_Node)
next
  case False
  from filter_hd_in [OF assms(2), of "\<lambda>r. OwnerUID r = OwnerUID ref"]
  obtain y ys where "filter (\<lambda>r. OwnerUID r = OwnerUID ref) (GetOwnerReferences obj) = y # ys"
    by auto
  with False assms(1) show ?thesis
    by (simp add: has_edge_def edges_Graph_Node)
qed

text \<open>
  C1. Let Graph.Node ingest an object whose group and kind do not print as "Namespace".
  For every owner reference of the object the registry afterwards holds an edge from the
  reference's UID to the object's UID. When no such edge was stored before, it holds
  exactly one: from the reference's UID (with the kind of a reference of that UID) to
  the object's UID, labeled with the object's kind. When the reference itself is not
  a core Namespace, the key made of the client's host name, the object's namespace and
  the reference's UID holds an ancestor node with that UID, that namespace and the name
  and kind of a reference of that UID. In particular, building the graph from the
  Deployment D and the ReplicaSet R that names D as its owner gives no error, exactly the
  two nodes of D and R, and exactly one edge, from D to R, labeled "ReplicaSet".
\<close>

theorem owner_edge_from_ancestor_to_child:
  "(GroupKind_String gvk \<noteq> ''Namespace'' \<longrightarrow> ref \<in> set (GetOwnerReferences obj) \<longrightarrow>
      has_edge (snd (snd (Graph_Node g gvk obj))) (OwnerUID ref) (GetUID obj) \<and>
      (\<not> has_edge g (OwnerUID ref) (GetUID obj) \<longrightarrow>
         (\<exists>r \<in> set (GetOwnerReferences obj). OwnerUID r = OwnerUID ref \<and>
            edges_between (snd (snd (Graph_Node g gvk obj))) (OwnerUID ref) (GetUID obj) =
              [\<lparr>From = \<lparr>RefUID = OwnerUID ref, RefKind = OwnerKind r\<rparr>,
                Type = GVKind gvk,
                To = \<lparr>RefUID = GetUID obj, RefKind = GVKind gvk\<rparr>,
                Attr = Map.empty\<rparr>])) \<and>
      (GroupKind_String (FromAPIVersionAndKind (OwnerAPIVersion ref) (OwnerKind ref))
           \<noteq> ''Namespace'' \<longrightarrow>
         (\<exists>n. \<exists>r \<in> set (GetOwnerReferences obj). OwnerUID r = OwnerUID ref \<and>
            nodes_of (snd (snd (Graph_Node g gvk obj)))
              (clientset g) (GetNamespace obj) (OwnerUID ref) = Some n \<and>
            UID n = OwnerUID ref \<and> Name n = OwnerName r \<and> Kind n = OwnerKind r \<and>
            Namespace n = GetNamespace obj))) \<and>
   (case NewGraph ''host'' ex [example_D, example_R] processed p of
      (g', err, p') \<Rightarrow>
        err = None \<and>
        stored_nodes g' =
          {(''host'', ''default'', ''11111111-1111-1111-1111-111111111111'',
            \<lparr>APIVersion = ''apps/v1'', Kind = ''Deployment'', Labels = [''app'' \<mapsto> ''web''],
             Name = ''web'', Namespace = ''default'',
             UID = ''11111111-1111-1111-1111-111111111111''\<rparr>),
           (''host'', ''default'', ''22222222-2222-2222-2222-222222222222'',
            \<lparr>APIVersion = ''apps/v1'', Kind = ''ReplicaSet'', Labels = [''app'' \<mapsto> ''web''],
             Name = ''web-5d4f'', Namespace = ''default'',
             UID = ''22222222-2222-2222-2222-222222222222''\<rparr>)} \<and>
        (\<forall>a. rels g' a =
           (if a = ''11111111-1111-1111-1111-111111111111''
            then [\<lparr>From = \<lparr>RefUID = ''11111111-1111-1111-1111-111111111111'',
                           RefKind = ''Deployment''\<rparr>,
                   Type = ''ReplicaSet'',
                   To = \<lparr>RefUID = ''22222222-2222-2222-2222-222222222222'',
                         RefKind = ''ReplicaSet''\<rparr>,
                   Attr = Map.empty\<rparr>]
            else [])))"
proof (intro conjI impI)
  assume nons: "GroupKind_String gvk \<noteq> ''Namespace''"
    and ref: "ref \<in> set (GetOwnerReferences obj)"
  show "has_edge (snd (snd (Graph_Node g gvk obj))) (OwnerUID ref) (GetUID obj)"
    using nons ref by (rule owner_edges_Graph_Node)
  {
    assume fresh: "\<not> has_edge g (OwnerUID ref) (GetUID obj)"
    from filter_hd_in [OF ref, of "\<lambda>r. OwnerUID r = OwnerUID ref"]
    obtain y ys where y: "filter (\<lambda>r. OwnerUID r = OwnerUID ref) (GetOwnerReferences obj) = y # ys"
      "y \<in> set (GetOwnerReferences obj)" "OwnerUID y = OwnerUID ref"
      by auto
    have "edges_between (snd (snd (Graph_Node g gvk obj))) (OwnerUID ref) (GetUID obj) =
            [owner_edge y (fst (Graph_Node g gvk obj))]"
      using nons fresh y(1) by (simp add: edges_Graph_Node has_edge_def)
    with y show "\<exists>r \<in> set (GetOwnerReferences obj). OwnerUID r = OwnerUID ref \<and>
            edges_between (snd (snd (Graph_Node g gvk obj))) (OwnerUID ref) (GetUID obj) =
              [\<lparr>From = \<lparr>RefUID = OwnerUID ref, RefKind = OwnerKind r\<rparr>,
                Type = GVKind gvk,
                To = \<lparr>RefUID = GetUID obj, RefKind = GVKind gvk\<rparr>,
                Attr = Map.empty\<rparr>]"
      by (intro bexI [of _ y]) (simp_all add: owner_edge_def Graph_Node_fst)
  }
  {
    assume stored: "GroupKind_String (FromAPIVersionAndKind (OwnerAPIVersion ref) (OwnerKind ref))
           \<noteq> ''Namespace''"
    let ?o = "default_cluster g obj"
    let ?g1 = "make_maps g ?o"
    let ?o1 = "inherit_labels ?g1 ?o"
    let ?n = "Node_value gvk ?o1"
    let ?g2 = "Node_store ?g1 ?o1 ?n"
    have g': "snd (snd (Graph_Node g gvk obj)) =
                fold (owner_step ?o1 ?n) (GetOwnerReferences obj) ?g2"
      using nons by (simp add: Graph_Node_unfold Let_def)
    have "\<exists>n. \<exists>r \<in> set (GetOwnerReferences obj). OwnerUID r = OwnerUID ref \<and>
            nodes_of (fold (owner_step ?o1 ?n) (GetOwnerReferences obj) ?g2)
              (clientset ?g2) (GetNamespace ?o1) (OwnerUID ref) = Some n \<and>
            UID n = OwnerUID ref \<and> Name n = OwnerName r \<and> Kind n = OwnerKind r \<and>
            Namespace n = GetNamespace ?o1"
      by (rule ancestor_owner_fold [OF subset_refl]) (use ref stored in blast)
    then show "\<exists>n. \<exists>r \<in> set (GetOwnerReferences obj). OwnerUID r = OwnerUID ref \<and>
            nodes_of (snd (snd (Graph_Node g gvk obj)))
              (clientset g) (GetNamespace obj) (OwnerUID ref) = Some n \<and>
            UID n = OwnerUID ref \<and> Name n = OwnerName r \<and> Kind n = OwnerKind r \<and>
            Namespace n = GetNamespace obj"
      by (simp add: g')
  }
next
  let ?g1 = "snd (snd (Graph_Node (empty_Graph ''host'') (Unstructured_GroupVersionKind example_D)
                     (metadata example_D)))"
  let ?g2 = "snd (snd (Graph_Node ?g1 (Unstructured_GroupVersionKind example_R) (metadata example_R)))"
  have c1: "clientset ?g1 = ''host''"
    by (rule example_D_step(3)) simp_all
  have n1: "nodes_of ?g1 c ns u =
     (if (c, ns, u) = (''host'', ''default'', ''11111111-1111-1111-1111-111111111111'')
       then Some \<lparr>APIVersion = ''apps/v1'', Kind = ''Deployment'', Labels = [''app'' \<mapsto> ''web''],
                  Name = ''web'', Namespace = ''default'',
                  UID = ''11111111-1111-1111-1111-111111111111''\<rparr>
       else None)" for c ns u
    by (subst example_D_step(1)) simp_all
  have r1: "rels ?g1 a = []" for a
    by (subst example_D_step(2)) simp_all
  have n2: "nodes_of ?g2 c ns u =
     (if (c, ns, u) = (''host'', ''default'', ''22222222-2222-2222-2222-222222222222'')
       then Some \<lparr>APIVersion = ''apps/v1'', Kind = ''ReplicaSet'', Labels = [''app'' \<mapsto> ''web''],
                  Name = ''web-5d4f'', Namespace = ''default'',
                  UID = ''22222222-2222-2222-2222-222222222222''\<rparr>
       else nodes_of ?g1 c ns u)" for c ns u
    by (rule example_R_step(1) [OF c1]) (simp_all add: n1 r1)
  have r2: "rels ?g2 a =
      (if a = ''11111111-1111-1111-1111-111111111111''
       then [\<lparr>From = \<lparr>RefUID = ''11111111-1111-1111-1111-111111111111'', RefKind = ''Deployment''\<rparr>,
              Type = ''ReplicaSet'',
              To = \<lparr>RefUID = ''22222222-2222-2222-2222-222222222222'', RefKind = ''ReplicaSet''\<rparr>,
              Attr = Map.empty\<rparr>]
       else rels ?g1 a)" for a
    by (rule example_R_step(2) [OF c1]) (simp_all add: n1 r1)
  have s: "stored_nodes ?g2 =
          {(''host'', ''default'', ''11111111-1111-1111-1111-111111111111'',
            \<lparr>APIVersion = ''apps/v1'', Kind = ''Deployment'', Labels = [''app'' \<mapsto> ''web''],
             Name = ''web'', Namespace = ''default'',
             UID = ''11111111-1111-1111-1111-111111111111''\<rparr>),
           (''host'', ''default'', ''22222222-2222-2222-2222-222222222222'',
            \<lparr>APIVersion = ''apps/v1'', Kind = ''ReplicaSet'', Labels = [''app'' \<mapsto> ''web''],
             Name = ''web-5d4f'', Namespace = ''default'',
             UID = ''22222222-2222-2222-2222-222222222222''\<rparr>)}"
    unfolding stored_nodes_def n2 n1
    by (auto split: if_splits)
  show "case NewGraph ''host'' ex [example_D, example_R] processed p of
      (g', err, p') \<Rightarrow>
        err = None \<and>
        stored_nodes g' =
          {(''host'', ''default'', ''11111111-1111-1111-1111-111111111111'',
            \<lparr>APIVersion = ''apps/v1'', Kind = ''Deployment'', Labels = [''app'' \<mapsto> ''web''],
             Name = ''web'', Namespace = ''default'',
             UID = ''11111111-1111-1111-1111-111111111111''\<rparr>),
           (''host'', ''default'', ''22222222-2222-2222-2222-222222222222'',
            \<lparr>APIVersion = ''apps/v1'', Kind = ''ReplicaSet'', Labels = [''app'' \<mapsto> ''web''],
             Name = ''web-5d4f'', Namespace = ''default'',
             UID = ''22222222-2222-2222-2222-222222222222''\<rparr>)} \<and>
        (\<forall>a. rels g' a =
           (if a = ''11111111-1111-1111-1111-111111111111''
            then [\<lparr>From = \<lparr>RefUID = ''11111111-1111-1111-1111-111111111111'',
                           RefKind = ''Deployment''\<rparr>,
                   Type = ''ReplicaSet'',
                   To = \<lparr>RefUID = ''22222222-2222-2222-2222-222222222222'',
                         RefKind = ''ReplicaSet''\<rparr>,
                   Attr = Map.empty\<rparr>]
            else []))"
    unfolding example_DR_NewGraph
    by (simp only: prod.case s r2 r1) simp
qed

theorem owner_edge_from_ancestor_to_child_witness:
  "GroupKind_String (Unstructured_GroupVersionKind example_R) \<noteq> ''Namespace'' \<and>
   example_ref \<in> set (GetOwnerReferences (metadata example_R)) \<and>
   \<not> has_edge example_graph_D (OwnerUID example_ref) (GetUID (metadata example_R)) \<and>
   GroupKind_String (FromAPIVersionAndKind (OwnerAPIVersion example_ref) (OwnerKind example_ref))
     \<noteq> ''Namespace'' \<and>
   edges_between
     (snd (snd (Graph_Node example_graph_D (Unstructured_GroupVersionKind example_R)
                  (metadata example_R))))
     ''11111111-1111-1111-1111-111111111111'' ''22222222-2222-2222-2222-222222222222'' =
     [\<lparr>From = \<lparr>RefUID = ''11111111-1111-1111-1111-111111111111'', RefKind = ''Deployment''\<rparr>,
       Type = ''ReplicaSet'',
       To = \<lparr>RefUID = ''22222222-2222-2222-2222-222222222222'', RefKind = ''ReplicaSet''\<rparr>,
       Attr = Map.empty\<rparr>] \<and>
   (\<exists>n. nodes_of
          (snd (snd (Graph_Node example_graph_D (Unstructured_GroupVersionKind example_R)
                       (metadata example_R))))
          ''host'' ''default'' ''11111111-1111-1111-1111-111111111111'' = Some n \<and>
        Name n = ''web'' \<and> Kind n = ''Deployment'') \<and>
   fst (snd (NewGraph ''host'' no_extractors [example_D, example_R] Suc (0 :: nat))) = None"
proof -
  have h1: "GroupKind_String (Unstructured_GroupVersionKind example_R) \<noteq> ''Namespace''"
    by (simp add: example_DR_gvk GroupKind_String_def)
  have h2: "example_ref \<in> set (GetOwnerReferences (metadata example_R))"
    by (simp add: example_DR_meta example_ref_def)
  have r: "rels example_graph_D a = []" for a
    unfolding example_graph_D_def by (subst example_D_step(2)) simp_all
  have h3: "\<not> has_edge example_graph_D (OwnerUID example_ref) (GetUID (metadata example_R))"
    by (simp add: has_edge_def edges_between_def r)
  have h4: "GroupKind_String
              (FromAPIVersionAndKind (OwnerAPIVersion example_ref) (OwnerKind example_ref))
            \<noteq> ''Namespace''"
    by (simp add: example_ref_def example_DR_gvk GroupKind_String_def)
  have c: "clientset example_graph_D = ''host''"
    unfolding example_graph_D_def by (rule example_D_step(3)) simp_all
  have f: "GetOwnerReferences (metadata example_R) = [example_ref]"
    "GetUID (metadata example_R) = ''22222222-2222-2222-2222-222222222222''"
    "GetNamespace (metadata example_R) = ''default''"
    "OwnerUID example_ref = ''11111111-1111-1111-1111-111111111111''"
    "OwnerKind example_ref = ''Deployment''" "OwnerName example_ref = ''web''"
    "GVKind (Unstructured_GroupVersionKind example_R) = ''ReplicaSet''"
    by (simp_all add: example_DR_meta example_ref_def example_DR_gvk)
  from owner_edge_from_ancestor_to_child [where gvk = "Unstructured_GroupVersionKind example_R"
      and ref = example_ref and obj = "metadata example_R" and g = example_graph_D
      and ex = no_extractors and processed = Suc and p = "0 :: nat"] h1 h2 h3 h4
  show ?thesis
    by (auto simp: f c split: prod.splits)
qed

subsection \<open>The order of ingestion and the set of edges\<close>

lemma edge_set_rel_pairs:
  "edge_set g = (\<lambda>(a, r). (RefUID (From r), RefUID (To r), Type r)) ` rel_pairs g"
  by (auto simp: edge_set_def rel_pairs_def image_iff)

lemma has_edge_rel_pairs:
  "has_edge g a b = (\<exists>r. (a, r) \<in> rel_pairs g \<and> RefUID (To r) = b)"
  by (auto simp: has_edge_def edges_between_def rel_pairs_def filter_empty_conv)

lemma rel_pairs_owner_step:
  "rel_pairs (owner_step obj node ownerRef g) =
     add_pair (OwnerUID ownerRef, owner_edge ownerRef node) (rel_pairs g)"
proof (cases "has_edge g (OwnerUID ownerRef) (UID node)")
  case True
  then have "rels (owner_step obj node ownerRef g) = rels g"
    by (auto simp: rels_owner_step)
  then have "rel_pairs (owner_step obj node ownerRef g) = rel_pairs g"
    by (simp add: rel_pairs_def)
  moreover from True have "add_pair (OwnerUID ownerRef, owner_edge ownerRef node) (rel_pairs g) =
      rel_pairs g"
    by (simp add: add_pair_def has_edge_rel_pairs owner_edge_def)
  ultimately show ?thesis by simp
next
  case False
  then have "rel_pairs (owner_step obj node ownerRef g) =
      insert (OwnerUID ownerRef, owner_edge ownerRef node) (rel_pairs g)"
    by (auto simp: rel_pairs_def rels_owner_step split: if_splits)
  moreover from False have "add_pair (OwnerUID ownerRef, owner_edge ownerRef node) (rel_pairs g) =
      insert (OwnerUID ownerRef, owner_edge ownerRef node) (rel_pairs g)"
    by (auto simp: add_pair_def has_edge_rel_pairs owner_edge_def)
  ultimately show ?thesis by simp
qed

lemma rel_pairs_owner_fold:
  "rel_pairs (fold (owner_step obj node) refs g) =
     fold add_pair (map (\<lambda>ownerRef. (OwnerUID ownerRef, owner_edge ownerRef node)) refs)
       (rel_pairs g)"
  by (induction refs arbitrary: g) (simp_all add: rel_pairs_owner_step)

lemma rel_pairs_Graph_Node:
  "rel_pairs (snd (snd (Graph_Node g gvk obj))) = fold add_pair (child_pairs gvk obj) (rel_pairs g)"
proof (cases "GroupKind_String gvk = ''Namespace''")
  case True
  then show ?thesis
    by (simp add: Graph_Node_unfold Let_def child_pairs_def rel_pairs_def)
next
  case False
  let ?o = "default_cluster g obj"
  let ?g1 = "make_maps g ?o"
  let ?o1 = "inherit_labels ?g1 ?o"
  let ?n = "Node_value gvk ?o1"
  have "rel_pairs (Node_store ?g1 ?o1 ?n) = rel_pairs g"
    by (simp add: rel_pairs_def)
  moreover have "(\<lambda>ownerRef. (OwnerUID ownerRef, owner_edge ownerRef ?n)) =
     (\<lambda>ownerRef. (OwnerUID ownerRef,
                   \<lparr>From = \<lparr>RefUID = OwnerUID ownerRef, RefKind = OwnerKind ownerRef\<rparr>,
                    Type = GVKind gvk,
                    To = \<lparr>RefUID = GetUID obj, RefKind = GVKind gvk\<rparr>,
                    Attr = Map.empty\<rparr>))"
    by (simp add: owner_edge_def)
  ultimately show ?thesis
    using False
    by (simp add: Graph_Node_unfold Let_def rel_pairs_owner_fold child_pairs_def)
qed

lemma add_pair_superset: "S \<subseteq> add_pair x S"
  by (simp add: add_pair_def subset_insertI)

lemma add_pair_present:
  "\<exists>r. (fst x, r) \<in> S \<and> RefUID (To r) = RefUID (To (snd x)) \<Longrightarrow> add_pair x S = S"
  unfolding add_pair_def by (rule if_P)

lemma add_pair_absent:
  "\<not> (\<exists>r. (fst x, r) \<in> S \<and> RefUID (To r) = RefUID (To (snd x))) \<Longrightarrow> add_pair x S = insert x S"
  unfolding add_pair_def by (rule if_not_P)

lemma present_after_other:
  assumes "RefUID (To (snd x)) \<noteq> RefUID (To (snd y))"
  shows "(\<exists>r. (fst x, r) \<in> add_pair y S \<and> RefUID (To r) = RefUID (To (snd x))) =
         (\<exists>r. (fst x, r) \<in> S \<and> RefUID (To r) = RefUID (To (snd x)))"
proof (cases "\<exists>r. (fst y, r) \<in> S \<and> RefUID (To r) = RefUID (To (snd y))")
  case True
  show ?thesis unfolding add_pair_present [OF True] ..
next
  case False
  have *: "(\<exists>r. (fst x, r) \<in> insert y S \<and> RefUID (To r) = RefUID (To (snd x))) =
        (\<exists>r. (fst x, r) \<in> S \<and> RefUID (To r) = RefUID (To (snd x)))"
  proof
    assume "\<exists>r. (fst x, r) \<in> insert y S \<and> RefUID (To r) = RefUID (To (snd x))"
    then obtain r where r: "(fst x, r) \<in> insert y S" "RefUID (To r) = RefUID (To (snd x))"
      by blast
    have "(fst x, r) \<noteq> y"
    proof
      assume "(fst x, r) = y"
      then have "snd y = r" by auto
      with r(2) assms show False by simp
    qed
    with r(1) have "(fst x, r) \<in> S" by simp
    with r(2) show "\<exists>r. (fst x, r) \<in> S \<and> RefUID (To r) = RefUID (To (snd x))" by blast
  next
    assume "\<exists>r. (fst x, r) \<in> S \<and> RefUID (To r) = RefUID (To (snd x))"
    then show "\<exists>r. (fst x, r) \<in> insert y S \<and> RefUID (To r) = RefUID (To (snd x))" by blast
  qed
  show ?thesis unfolding add_pair_absent [OF False] by (rule *)
qed

lemma add_pair_commute:
  assumes "RefUID (To (snd x)) \<noteq> RefUID (To (snd y))"
  shows "add_pair x (add_pair y S) = add_pair y (add_pair x S)"
proof -
  let ?px = "\<exists>r. (fst x, r) \<in> S \<and> RefUID (To r) = RefUID (To (snd x))"
  let ?py = "\<exists>r. (fst y, r) \<in> S \<and> RefUID (To r) = RefUID (To (snd y))"
  note xy = present_after_other [OF assms, of S]
  note yx = present_after_other [OF assms [symmetric], of S]
  show ?thesis
  proof (cases ?px)
    case px: True
    have a: "add_pair x (add_pair y S) = add_pair y S"
      by (rule add_pair_present) (unfold xy, rule px)
    from px have b: "add_pair x S = S"
      by (rule add_pair_present)
    show ?thesis unfolding a b ..
  next
    case px: False
    have a: "add_pair x (add_pair y S) = insert x (add_pair y S)"
      by (rule add_pair_absent) (unfold xy, rule px)
    from px have b: "add_pair x S = insert x S"
      by (rule add_pair_absent)
    show ?thesis
    proof (cases ?py)
      case py: True
      have c: "add_pair y (add_pair x S) = add_pair x S"
        by (rule add_pair_present) (unfold yx, rule py)
      from py have d: "add_pair y S = S"
        by (rule add_pair_present)
      show ?thesis by (metis a b c d)
    next
      case py: False
      have c: "add_pair y (add_pair x S) = insert y (add_pair x S)"
        by (rule add_pair_absent) (unfold yx, rule py)
      from py have d: "add_pair y S = insert y S"
        by (rule add_pair_absent)
      show ?thesis by (metis a b c d insert_commute)
    qed
  qed
qed

lemma add_pair_fold_commute1:
  assumes "\<forall>y \<in> set ys. RefUID (To (snd x)) \<noteq> RefUID (To (snd y))"
  shows "add_pair x (fold add_pair ys S) = fold add_pair ys (add_pair x S)"
  using assms
proof (induction ys arbitrary: S)
  case Nil
  show ?case by simp
next
  case (Cons y ys)
  then have "add_pair x (fold add_pair ys (add_pair y S)) = fold add_pair ys (add_pair x (add_pair y S))"
    by simp
  also have "add_pair x (add_pair y S) = add_pair y (add_pair x S)"
    using Cons.prems by (intro add_pair_commute) simp
  finally show ?case by simp
qed

lemma add_pair_fold_commute:
  assumes "\<forall>x \<in> set xs. \<forall>y \<in> set ys. RefUID (To (snd x)) \<noteq> RefUID (To (snd y))"
  shows "fold add_pair xs (fold add_pair ys S) = fold add_pair ys (fold add_pair xs S)"
  using assms
proof (induction xs arbitrary: S)
  case Nil
  show ?case by simp
next
  case (Cons x xs)
  have "fold add_pair (x # xs) (fold add_pair ys S) = fold add_pair xs (add_pair x (fold add_pair ys S))"
    by simp
  also have "add_pair x (fold add_pair ys S) = fold add_pair ys (add_pair x S)"
    using Cons.prems by (intro add_pair_fold_commute1) simp
  also have "fold add_pair xs (fold add_pair ys (add_pair x S)) =
             fold add_pair ys (fold add_pair xs (add_pair x S))"
    using Cons.prems by (intro Cons.IH) simp
  finally show ?case by simp
qed

lemma child_pairs_To:
  "x \<in> set (child_pairs gvk obj) \<Longrightarrow> RefUID (To (snd x)) = GetUID obj"
  by (auto simp: child_pairs_def split: if_splits)

text \<open>
  C2. For two objects with different UIDs (one may name the other in an owner
  reference), Graph.Node on the child and then on the owner leaves the same set of edges,
  as from-identifier, to-identifier and label, as Graph.Node on the owner and then on the
  child, whatever the graph was before.
\<close>

theorem ingestion_order_same_edges:
  assumes "GetUID child \<noteq> GetUID owner"
  shows "edge_set (snd (snd (Graph_Node (snd (snd (Graph_Node g gvk_c child))) gvk_o owner))) =
         edge_set (snd (snd (Graph_Node (snd (snd (Graph_Node g gvk_o owner))) gvk_c child)))"
proof -
  have "\<forall>x \<in> set (child_pairs gvk_o owner). \<forall>y \<in> set (child_pairs gvk_c child).
          RefUID (To (snd x)) \<noteq> RefUID (To (snd y))"
    using assms by (auto simp: child_pairs_To)
  from add_pair_fold_commute [OF this]
  have "rel_pairs (snd (snd (Graph_Node (snd (snd (Graph_Node g gvk_c child))) gvk_o owner))) =
        rel_pairs (snd (snd (Graph_Node (snd (snd (Graph_Node g gvk_o owner))) gvk_c child)))"
    by (simp add: rel_pairs_Graph_Node)
  then show ?thesis
    by (simp add: edge_set_rel_pairs)
qed

theorem ingestion_order_same_edges_witness:
  "GetUID (metadata example_R) \<noteq> GetUID (metadata example_D) \<and>
   (\<exists>ref \<in> set (GetOwnerReferences (metadata example_R)). OwnerUID ref = GetUID (metadata example_D)) \<and>
   edge_set (snd (snd (Graph_Node
       (snd (snd (Graph_Node (empty_Graph ''host'') (Unstructured_GroupVersionKind example_R)
                    (metadata example_R))))
       (Unstructured_GroupVersionKind example_D) (metadata example_D)))) =
   edge_set (snd (snd (Graph_Node example_graph_D
       (Unstructured_GroupVersionKind example_R) (metadata example_R)))) \<and>
   edge_set (snd (snd (Graph_Node example_graph_D
       (Unstructured_GroupVersionKind example_R) (metadata example_R)))) =
     {(''11111111-1111-1111-1111-111111111111'', ''22222222-2222-2222-2222-222222222222'',
       ''ReplicaSet'')}"
proof -
  have h: "GetUID (metadata example_R) \<noteq> GetUID (metadata example_D)"
    by (simp add: example_DR_meta)
  have o: "\<exists>ref \<in> set (GetOwnerReferences (metadata example_R)).
             OwnerUID ref = GetUID (metadata example_D)"
    by (simp add: example_DR_meta)
  have c: "clientset example_graph_D = ''host''"
    unfolding example_graph_D_def by (rule example_D_step(3)) simp_all
  have n: "nodes_of example_graph_D c ns u =
     (if (c, ns, u) = (''host'', ''default'', ''11111111-1111-1111-1111-111111111111'')
       then Some \<lparr>APIVersion = ''apps/v1'', Kind = ''Deployment'', Labels = [''app'' \<mapsto> ''web''],
                  Name = ''web'', Namespace = ''default'',
                  UID = ''11111111-1111-1111-1111-111111111111''\<rparr>
       else None)" for c ns u
    unfolding example_graph_D_def by (subst example_D_step(1)) simp_all
  have r: "rels example_graph_D a = []" for a
    unfolding example_graph_D_def by (subst example_D_step(2)) simp_all
  have r2: "rels (snd (snd (Graph_Node example_graph_D
       (Unstructured_GroupVersionKind example_R) (metadata example_R)))) a =
      (if a = ''11111111-1111-1111-1111-111111111111''
       then [\<lparr>From = \<lparr>RefUID = ''11111111-1111-1111-1111-111111111111'', RefKind = ''Deployment''\<rparr>,
              Type = ''ReplicaSet'',
              To = \<lparr>RefUID = ''22222222-2222-2222-2222-222222222222'', RefKind = ''ReplicaSet''\<rparr>,
              Attr = Map.empty\<rparr>]
       else rels example_graph_D a)" for a
    by (rule example_R_step(2) [OF c]) (simp_all add: n r)
  have e: "edge_set (snd (snd (Graph_Node example_graph_D
       (Unstructured_GroupVersionKind example_R) (metadata example_R)))) =
     {(''11111111-1111-1111-1111-111111111111'', ''22222222-2222-2222-2222-222222222222'',
       ''ReplicaSet'')}"
    unfolding edge_set_def r2 r by (auto split: if_splits)
  from ingestion_order_same_edges [OF h, of "empty_Graph ''host''"
      "Unstructured_GroupVersionKind example_R" "Unstructured_GroupVersionKind example_D"]
  show ?thesis
    using h o e by (simp add: example_graph_D_def)
qed

subsection \<open>Graph.Write and Graph.String\<close>

lemma templates_lookup:
  "templates cy gv format =
     (if format = ''graphviz'' then Some gv else if format = ''cypher'' then Some cy else None)"
  by (simp add: templates_def)

lemma Graph_Write_eq:
  "Graph_Write cy gv g w format =
     (if format = ''graphviz'' then (case gv g of (err, out, g') \<Rightarrow> (err, w @ out, g'))
      else if format = ''cypher'' then (case cy g of (err, out, g') \<Rightarrow> (err, w @ out, g'))
      else (Some (NoTemplate format), w, g))"
  by (simp add: Graph_Write_def ExecuteTemplate_def templates_lookup split: prod.splits option.splits)

text \<open>
  C9. Graph.Write returns no error only for the formats "cypher" and "graphviz". For every
  other format it returns the error of the missing template and has written nothing and
  changed nothing in the graph, so that a later call behaves as if the failed one had not
  been made. For the two formats it returns what the template's execution returns.
\<close>

theorem write_fails_on_other_formats:
  "(fst (Graph_Write cy gv g w format) = None \<longrightarrow> format = ''cypher'' \<or> format = ''graphviz'') \<and>
   (format \<noteq> ''cypher'' \<longrightarrow> format \<noteq> ''graphviz'' \<longrightarrow>
      Graph_Write cy gv g w format = (Some (NoTemplate format), w, g) \<and>
      (case Graph_Write cy gv g w format of
         (err, w', g') \<Rightarrow> Graph_Write cy gv g' w' format' = Graph_Write cy gv g w format')) \<and>
   Graph_Write cy gv g w ''cypher'' = (case cy g of (err, out, g') \<Rightarrow> (err, w @ out, g')) \<and>
   Graph_Write cy gv g w ''graphviz'' = (case gv g of (err, out, g') \<Rightarrow> (err, w @ out, g'))"
  by (simp add: Graph_Write_eq)

theorem write_fails_on_other_formats_witness:
  "''json'' \<noteq> ''cypher'' \<and> ''json'' \<noteq> ''graphviz'' \<and>
   Graph_Write example_template example_template (empty_Graph ''host'') [] ''json'' =
     (Some (NoTemplate ''json''), [], empty_Graph ''host'') \<and>
   fst (Graph_Write example_template example_template (empty_Graph ''host'') [] ''graphviz'') = None \<and>
   Graph_Write example_template example_template (empty_Graph ''host'') [] ''graphviz'' =
     (None, ''digraph {}'', empty_Graph ''host'')"
  using write_fails_on_other_formats [of example_template example_template "empty_Graph ''host''"
      "[]" "''json''" "''cypher''"]
    write_fails_on_other_formats [of example_template example_template "empty_Graph ''host''"
      "[]" "''graphviz''" "''cypher''"]
  by (simp add: example_template_def)

text \<open>
  C10. Graph.String returns the text that Graph.Write has written into the empty buffer
  and nothing of the error: for a format other than "cypher" and "graphviz" the empty
  string, and for a template that fails after it has written some text, that text.
\<close>

theorem string_drops_the_error:
  "fst (Graph_String cy gv g format) = fst (snd (Graph_Write cy gv g [] format)) \<and>
   (format \<noteq> ''cypher'' \<longrightarrow> format \<noteq> ''graphviz'' \<longrightarrow> Graph_String cy gv g format = ([], g)) \<and>
   (cy g = (Some e, out, g') \<longrightarrow> Graph_String cy gv g ''cypher'' = (out, g')) \<and>
   (gv g = (Some e, out, g') \<longrightarrow> Graph_String cy gv g ''graphviz'' = (out, g'))"
  by (simp add: Graph_String_def Graph_Write_eq split: prod.splits)

theorem string_drops_the_error_witness:
  "''json'' \<noteq> ''cypher'' \<and> ''json'' \<noteq> ''graphviz'' \<and>
   Graph_String example_template example_failing_template (empty_Graph ''host'') ''json'' =
     ([], empty_Graph ''host'') \<and>
   example_failing_template (empty_Graph ''host'') =
     (Some (Failure ''write failed''), ''digraph {'', empty_Graph ''host'') \<and>
   fst (Graph_Write example_template example_failing_template (empty_Graph ''host'') [] ''graphviz'') =
     Some (Failure ''write failed'') \<and>
   Graph_String example_template example_failing_template (empty_Graph ''host'') ''graphviz'' =
     (''digraph {'', empty_Graph ''host'')"
  using string_drops_the_error [of example_template example_failing_template "empty_Graph ''host''"
      "''json''" "Failure ''write failed''" "''digraph {''" "empty_Graph ''host''"]
  by (simp add: example_failing_template_def Graph_Write_eq)

subsection \<open>Labels.String and Attributes.String\<close>

lemma fold_append_map: "fold (\<lambda>x acc. acc @ [f x]) xs ys = ys @ map f xs"
  by (induction xs arbitrary: ys) simp_all

lemma runs_in_class:
  "cls c \<Longrightarrow> runs cls (c # src) = (c # takeWhile cls src) # runs cls (dropWhile cls src)"
  by simp

lemma runs_out_of_class:
  "\<not> cls c \<Longrightarrow>
     runs cls (c # src) =
       (c # takeWhile (\<lambda>y. \<not> cls y) src) # runs cls (dropWhile (\<lambda>y. \<not> cls y) src)"
  by simp

declare runs.simps(2) [simp del]

lemma replace_runs_split:
  "concat (map (\<lambda>run. if cls (hd run) then repl else run) (runs cls src)) =
     takeWhile (\<lambda>y. \<not> cls y) src @
     concat (map (\<lambda>run. if cls (hd run) then repl else run)
                 (runs cls (dropWhile (\<lambda>y. \<not> cls y) src)))"
proof (cases src)
  case Nil
  then show ?thesis by simp
next
  case (Cons d rest)
  then show ?thesis
    by (cases "cls d") (simp_all add: runs_out_of_class)
qed

lemma ReplaceAllString_runs:
  "ReplaceAllString cls src repl =
     concat (map (\<lambda>run. if cls (hd run) then repl else run) (runs cls src))"
proof (induction cls src repl rule: ReplaceAllString.induct)
  case (1 cls repl)
  show ?case by simp
next
  case (2 cls c src repl)
  show ?case
  proof (cases "cls c")
    case True
    with "2.IH"(1) show ?thesis
      by (simp add: runs_in_class)
  next
    case False
    from "2.IH"(2) [OF False]
    have "ReplaceAllString cls src repl =
            concat (map (\<lambda>run. if cls (hd run) then repl else run) (runs cls src))" .
    also note replace_runs_split
    finally show ?thesis
      using False by (simp add: runs_out_of_class)
  qed
qed

lemma Labels_String_eq: "Labels_String xs = Join (sort (map label_clause xs)) '', ''"
proof -
  have "(\<lambda>(key, val) selector.
           let property = ReplaceAllString not_a_z0_9 (ToLower key) ''_''
           in selector @ [''node.Label_'' @ property @ '' = '' @ [dquote] @ val @ [dquote]]) =
        (\<lambda>x acc. acc @ [label_clause x])"
    by (intro ext) (simp add: label_clause_def normalized_key_def ReplaceAllString_runs
        split: prod.splits)
  then show ?thesis
    by (simp add: Labels_String_def fold_append_map)
qed

lemma Attributes_String_eq: "Attributes_String xs = Join (sort (map attr_clause xs)) '' ''"
proof -
  have "(\<lambda>(key, val) selector. selector @ [key @ ''='' @ [dquote] @ val @ [dquote]]) =
        (\<lambda>x acc. acc @ [attr_clause x])"
    by (intro ext) (simp add: attr_clause_def split: prod.splits)
  then show ?thesis
    by (simp add: Attributes_String_def fold_append_map)
qed

lemma range_order_mset:
  assumes "range_order m xs" and "range_order m ys"
  shows "mset xs = mset ys"
proof -
  from assms have d: "distinct (map fst xs)" "distinct (map fst ys)" "map_of xs = map_of ys"
    by (simp_all add: range_order_def)
  then have "set xs = set ys"
    by (simp add: map_of_inject_set)
  moreover from d have "distinct xs" "distinct ys"
    by (simp_all add: distinct_map)
  ultimately show ?thesis
    by (simp add: set_eq_iff_mset_eq_distinct)
qed

lemma sort_map_mset: "mset xs = mset ys \<Longrightarrow> sort (map f xs) = sort (map f ys)"
proof -
  assume "mset xs = mset ys"
  then have "mset (sort (map f ys)) = mset (map f xs)"
    by (metis mset_map mset_sort)
  then show ?thesis
    by (rule properties_for_sort) simp
qed

lemma range_order_length: "range_order m xs \<Longrightarrow> length xs = card (dom m)"
proof -
  assume a: "range_order m xs"
  then have "dom m = fst ` set xs"
    by (simp add: range_order_def dom_map_of_conv_image_fst [symmetric] del: dom_map_of_conv_image_fst)
  moreover from a have "card (set (map fst xs)) = length (map fst xs)"
    by (intro distinct_card) (simp add: range_order_def)
  ultimately show ?thesis by simp
qed

text \<open>
  C8. Let \<open>xs\<close> be the entries of a map in the order in which the range loop visits
  them. For a label map with ASCII keys, Labels.String is the clauses
  \<^verbatim>\<open>node.Label_<normalized key> = "<value>"\<close>, one for each label, in sorted order and
  joined by a comma and a space, where the normalized key is the key in lower case with
  every run of characters outside a-z and 0-9 replaced by one underscore. Attributes.String
  is the clauses \<^verbatim>\<open>key="value"\<close> in sorted order, joined by a space. Any other order of
  visiting the same map gives the same two strings.
\<close>

theorem renderings_sorted_and_order_free:
  assumes "range_order m xs"
  shows "((\<forall>(key, val) \<in> set xs. ascii key) \<longrightarrow>
            Labels_String xs = Join (sort (map label_clause xs)) '', '' \<and>
            sorted (sort (map label_clause xs)) \<and>
            mset (sort (map label_clause xs)) = mset (map label_clause xs) \<and>
            length (sort (map label_clause xs)) = card (dom m) \<and>
            (range_order m ys \<longrightarrow> Labels_String ys = Labels_String xs)) \<and>
         Attributes_String xs = Join (sort (map attr_clause xs)) '' '' \<and>
         sorted (sort (map attr_clause xs)) \<and>
         mset (sort (map attr_clause xs)) = mset (map attr_clause xs) \<and>
         length (sort (map attr_clause xs)) = card (dom m) \<and>
         (range_order m ys \<longrightarrow> Attributes_String ys = Attributes_String xs)"
proof -
  have len: "length xs = card (dom m)"
    using assms by (rule range_order_length)
  have same: "range_order m ys \<Longrightarrow> sort (map f ys) = sort (map f xs)" for f
    using assms by (intro sort_map_mset range_order_mset)
  show ?thesis
    by (simp add: Labels_String_eq Attributes_String_eq len same)
qed

lemma example_labels_order:
  "range_order (map_of example_labels) example_labels"
  "range_order (map_of example_labels) (rev example_labels)"
  by (auto simp: range_order_def example_labels_def fun_eq_iff)

lemma example_labels_ascii: "\<forall>(key, val) \<in> set example_labels. ascii key"
  by (simp add: example_labels_def ascii_def)

lemma example_normalized:
  "normalized_key ''app.kubernetes.io/Name'' = ''app_kubernetes_io_name''"
  "normalized_key ''Tier'' = ''tier''"
  by (simp_all add: normalized_key_def ToLower_def ToLower_char_def runs.simps not_a_z0_9_def)

theorem renderings_sorted_and_order_free_witness:
  "range_order (map_of example_labels) example_labels \<and>
   range_order (map_of example_labels) (rev example_labels) \<and>
   ascii ''app.kubernetes.io/Name'' \<and> ascii ''Tier'' \<and>
   Labels_String example_labels =
     ''node.Label_app_kubernetes_io_name = '' @ [dquote] @ ''web'' @ [dquote] @
     '', node.Label_tier = '' @ [dquote] @ ''front'' @ [dquote] \<and>
   Labels_String (rev example_labels) = Labels_String example_labels \<and>
   Attributes_String example_labels =
     ''Tier='' @ [dquote] @ ''front'' @ [dquote] @
     '' app.kubernetes.io/Name='' @ [dquote] @ ''web'' @ [dquote] \<and>
   Attributes_String (rev example_labels) = Attributes_String example_labels"
proof -
  have l: "map label_clause example_labels =
      [''node.Label_app_kubernetes_io_name = '' @ [dquote] @ ''web'' @ [dquote],
       ''node.Label_tier = '' @ [dquote] @ ''front'' @ [dquote]]"
    by (simp add: example_labels_def label_clause_def example_normalized)
  have a: "map attr_clause example_labels =
      [''app.kubernetes.io/Name='' @ [dquote] @ ''web'' @ [dquote],
       ''Tier='' @ [dquote] @ ''front'' @ [dquote]]"
    by (simp add: example_labels_def attr_clause_def)
  from renderings_sorted_and_order_free [OF example_labels_order(1), of "rev example_labels"]
    example_labels_order example_labels_ascii
  show ?thesis
    by (simp add: l a) (simp add: example_labels_def ascii_def dquote_def)
qed

subsection \<open>NewGraph: failures of the extractors\<close>

lemma grows_refl: "grows g g"
  by (simp add: grows_def)

lemma grows_trans: "grows g h \<Longrightarrow> grows h k \<Longrightarrow> grows g k"
  by (simp add: grows_def)

lemma nodes_kept_owner_fold:
  "nodes_of g c ns u \<noteq> None \<Longrightarrow> nodes_of (fold (owner_step obj node) refs g) c ns u \<noteq> None"
  by (induction refs arbitrary: g) (simp_all add: nodes_of_owner_step)

lemma clientset_Graph_Node [simp]: "clientset (snd (snd (Graph_Node g gvk obj))) = clientset g"
  by (simp add: Graph_Node_unfold Let_def)

lemma nodes_kept_Graph_Node:
  assumes "nodes_of g c ns u \<noteq> None"
  shows "nodes_of (snd (snd (Graph_Node g gvk obj))) c ns u \<noteq> None"
proof (cases "GroupKind_String gvk = ''Namespace''")
  case True
  with assms show ?thesis by (simp add: Graph_Node_unfold Let_def)
next
  case False
  let ?o = "default_cluster g obj"
  let ?g1 = "make_maps g ?o"
  let ?o1 = "inherit_labels ?g1 ?o"
  let ?n = "Node_value gvk ?o1"
  from assms have "nodes_of (Node_store ?g1 ?o1 ?n) c ns u \<noteq> None"
    by (simp add: nodes_of_Node_store)
  from nodes_kept_owner_fold [OF this] False show ?thesis
    by (simp add: Graph_Node_unfold Let_def)
qed

lemma node_stored_Graph_Node:
  assumes "GroupKind_String gvk \<noteq> ''Namespace''"
  shows "nodes_of (snd (snd (Graph_Node g gvk obj)))
           (if GetClusterName obj = [] then clientset g else GetClusterName obj)
           (GetNamespace obj) (GetUID obj) \<noteq> None"
proof -
  let ?o = "default_cluster g obj"
  let ?g1 = "make_maps g ?o"
  let ?o1 = "inherit_labels ?g1 ?o"
  let ?n = "Node_value gvk ?o1"
  have "GetClusterName ?o1 = (if GetClusterName obj = [] then clientset g else GetClusterName obj)"
    by (simp add: default_cluster_def)
  then have "nodes_of (Node_store ?g1 ?o1 ?n)
           (if GetClusterName obj = [] then clientset g else GetClusterName obj)
           (GetNamespace obj) (GetUID obj) \<noteq> None"
    by (simp add: nodes_of_Node_store)
  from nodes_kept_owner_fold [OF this] assms show ?thesis
    by (simp add: Graph_Node_unfold Let_def)
qed

lemma grows_Graph_Node: "grows g (snd (snd (Graph_Node g gvk obj)))"
  by (simp add: grows_def nodes_kept_Graph_Node has_edge_kept_Graph_Node)

lemma ingested_Graph_Node:
  "ingested (clientset g) u
     (snd (snd (Graph_Node g (Unstructured_GroupVersionKind u) (metadata u))))"
  by (simp add: ingested_def node_stored_Graph_Node owner_edges_Graph_Node)

lemma ingested_grows: "ingested host u g \<Longrightarrow> grows g g' \<Longrightarrow> ingested host u g'"
  by (simp add: ingested_def grows_def)

lemma Graph_Unstructured_grows:
  assumes "extractors_grow ex"
  shows "grows (snd (snd (Graph_Node g (Unstructured_GroupVersionKind u) (metadata u))))
           (snd (Graph_Unstructured ex g u))"
  using assms
  by (simp add: Graph_Unstructured_def case_prod_beta Let_def extractors_grow_def grows_refl)

lemma Graph_Unstructured_step:
  assumes "extractors_grow ex"
  shows "grows g (snd (Graph_Unstructured ex g u))"
    and "ingested (clientset g) u (snd (Graph_Unstructured ex g u))"
  using grows_trans [OF grows_Graph_Node Graph_Unstructured_grows [OF assms]]
    ingested_grows [OF ingested_Graph_Node Graph_Unstructured_grows [OF assms]]
  by blast+

lemma NewGraph_loop_result:
  assumes "extractors_grow ex"
    and "\<forall>g. \<forall>u \<in> set objs. fst (Graph_Unstructured ex g u) = fails u"
    and "NewGraph_loop ex processed objs g errs p = (g', errs', p')"
  shows "grows g g' \<and> errs' = errs @ List.map_filter fails objs \<and>
         p' = (processed ^^ length objs) p \<and>
         (\<forall>u \<in> set objs. ingested (clientset g) u g')"
  using assms(2,3)
proof (induction objs arbitrary: g errs p)
  case Nil
  then show ?case by (simp add: grows_refl List.map_filter_simps)
next
  case (Cons u objs)
  let ?g1 = "snd (Graph_Unstructured ex g u)"
  let ?errs1 = "case fails u of Some e \<Rightarrow> errs @ [e] | None \<Rightarrow> errs"
  have f: "fst (Graph_Unstructured ex g u) = fails u"
    using Cons.prems(1) by simp
  have loop: "NewGraph_loop ex processed objs ?g1 ?errs1 (processed p) = (g', errs', p')"
    using Cons.prems(2) f by (simp add: case_prod_beta)
  have rest: "\<forall>g. \<forall>u \<in> set objs. fst (Graph_Unstructured ex g u) = fails u"
    using Cons.prems(1) by simp
  from Cons.IH [OF rest loop]
  have ih: "grows ?g1 g'" "errs' = ?errs1 @ List.map_filter fails objs"
    "p' = (processed ^^ length objs) (processed p)"
    "\<forall>u \<in> set objs. ingested (clientset ?g1) u g'"
    by simp_all
  note step = Graph_Unstructured_step [OF assms(1), of g u]
  have c: "clientset ?g1 = clientset g"
    using step(1) by (simp add: grows_def)
  have "grows g g'"
    using step(1) ih(1) by (rule grows_trans)
  moreover have "errs' = errs @ List.map_filter fails (u # objs)"
    using ih(2) by (cases "fails u") (simp_all add: List.map_filter_simps)
  moreover have "p' = (processed ^^ length (u # objs)) p"
    using ih(3) by (simp add: funpow_swap1)
  moreover have "\<forall>v \<in> set (u # objs). ingested (clientset g) v g'"
    using ih(4) ingested_grows [OF step(2) ih(1)] by (simp add: c)
  ultimately show ?case by blast
qed

lemma length_map_filter:
  "length (List.map_filter f xs) = length (filter (\<lambda>x. f x \<noteq> None) xs)"
  by (induction xs) (auto simp: List.map_filter_simps split: option.splits)

text \<open>
  C7. Let the extractors only add to the graph, and let \<open>fails u\<close> be the error, or
  none, with which extractor-level processing ends on the object \<open>u\<close> of the batch
  (whatever the graph is when its turn comes). Then NewGraph calls the callback once for
  each of the N objects; its aggregate error is the list of the errors of the failing
  objects, in the order of the batch: nil when there is none, else of length K, the number
  of failing objects; and every object of the batch, failing or not, has its node and its
  owner edges in the returned graph (a core Namespace object has none to store).
\<close>

theorem batch_goes_on_after_failures:
  assumes "extractors_grow ex"
    and "\<forall>g. \<forall>u \<in> set objs. fst (Graph_Unstructured ex g u) = fails u"
    and "NewGraph host ex objs processed p = (g', agg, p')"
  shows "p' = (processed ^^ length objs) p \<and>
         agg = NewAggregate (List.map_filter fails objs) \<and>
         (agg = None) = (length (filter (\<lambda>u. fails u \<noteq> None) objs) = 0) \<and>
         (\<forall>errs. agg = Some errs \<longrightarrow>
            length errs = length (filter (\<lambda>u. fails u \<noteq> None) objs)) \<and>
         (\<forall>u \<in> set objs. ingested host u g')"
proof -
  obtain errs' where
    loop: "NewGraph_loop ex processed objs (empty_Graph host) [] p = (g', errs', p')"
    and agg: "agg = NewAggregate errs'"
    using assms(3) by (auto simp: NewGraph_alt split: prod.splits)
  from NewGraph_loop_result [OF assms(1,2) loop]
  have r: "errs' = List.map_filter fails objs" "p' = (processed ^^ length objs) p"
    "\<forall>u \<in> set objs. ingested host u g'"
    by simp_all
  have l: "length errs' = length (filter (\<lambda>u. fails u \<noteq> None) objs)"
    by (simp add: r(1) length_map_filter)
  show ?thesis
    using r l agg by (auto simp: NewAggregate_def)
qed

lemma Graph_Node_object_name [simp]:
  "GetName (fst (snd (Graph_Node g gvk obj))) = GetName obj"
  by (simp add: Graph_Node_unfold Let_def)

lemma example_batch_facts:
  "GetAPIVersion example_bad_pod = ''v1''"
  "GetName (metadata example_bad_pod) = ''bad''"
  "GetClusterName (metadata example_bad_pod) = []"
  "GetNamespace (metadata example_bad_pod) = ''default''"
  "GetUID (metadata example_bad_pod) = ''uid-bad''"
  "Unstructured_GroupVersionKind example_bad_pod = \<lparr>Group = [], Version = ''v1'', GVKind = ''Pod''\<rparr>"
  "example_fails example_bad_pod = Some (Failure ''conversion'')"
  "example_fails example_D = None"
  "example_fails example_R = None"
  by (simp_all add: example_bad_pod_def example_fails_def example_DR_meta
      Unstructured_GroupVersionKind_def ParseGroupVersion_def)

lemma example_extractors_fail:
  "\<forall>g. \<forall>u \<in> set [example_bad_pod, example_D, example_R].
     fst (Graph_Unstructured example_extractors g u) = example_fails u"
proof (intro allI ballI)
  fix g u
  assume "u \<in> set [example_bad_pod, example_D, example_R]"
  then consider "u = example_bad_pod" | "u = example_D" | "u = example_R"
    by auto
  then show "fst (Graph_Unstructured example_extractors g u) = example_fails u"
  proof cases
    case 1
    then show ?thesis
      by (simp add: Graph_Unstructured_def case_prod_beta example_batch_facts
          example_extractors_def)
  next
    case 2
    then show ?thesis
      by (simp add: Unstructured_no_extractor example_DR_meta example_batch_facts)
  next
    case 3
    then show ?thesis
      by (simp add: Unstructured_no_extractor example_DR_meta example_batch_facts)
  qed
qed

theorem batch_goes_on_after_failures_witness:
  "extractors_grow example_extractors \<and>
   fst (snd (NewGraph ''host'' example_extractors [example_bad_pod, example_D, example_R]
               Suc (0 :: nat))) = Some [Failure ''conversion''] \<and>
   snd (snd (NewGraph ''host'' example_extractors [example_bad_pod, example_D, example_R]
               Suc (0 :: nat))) = 3 \<and>
   nodes_of (fst (NewGraph ''host'' example_extractors [example_bad_pod, example_D, example_R]
               Suc (0 :: nat))) ''host'' ''default'' ''uid-bad'' \<noteq> None \<and>
   has_edge (fst (NewGraph ''host'' example_extractors [example_bad_pod, example_D, example_R]
               Suc (0 :: nat)))
     ''11111111-1111-1111-1111-111111111111'' ''22222222-2222-2222-2222-222222222222''"
proof -
  let ?r = "NewGraph ''host'' example_extractors [example_bad_pod, example_D, example_R]
              Suc (0 :: nat)"
  have h1: "extractors_grow example_extractors"
    by (simp add: extractors_grow_def example_extractors_def grows_refl)
  have h3: "?r = (fst ?r, fst (snd ?r), snd (snd ?r))"
    by simp
  from batch_goes_on_after_failures [OF h1 example_extractors_fail h3]
  have c: "snd (snd ?r) = 3" "fst (snd ?r) = Some [Failure ''conversion'']"
    "ingested ''host'' example_bad_pod (fst ?r)" "ingested ''host'' example_R (fst ?r)"
    by (simp_all add: List.map_filter_simps example_batch_facts NewAggregate_def)
  from c(3) have n: "nodes_of (fst ?r) ''host'' ''default'' ''uid-bad'' \<noteq> None"
    by (simp add: ingested_def example_batch_facts GroupKind_String_def)
  from c(4) have e: "has_edge (fst ?r)
     ''11111111-1111-1111-1111-111111111111'' ''22222222-2222-2222-2222-222222222222''"
    by (simp add: ingested_def example_DR_meta example_DR_gvk GroupKind_String_def)
  show ?thesis
    using h1 c(1,2) n e by simp
qed

subsection \<open>ToUID\<close>

lemma Join_leading_empty:
  "ys \<noteq> [] \<Longrightarrow> Join (replicate k [] @ ys) sep = concat (replicate k sep) @ Join ys sep"
proof (induction k)
  case 0
  show ?case by simp
next
  case (Suc k)
  then obtain z zs where "replicate k [] @ ys = z # zs"
    by (cases "replicate k [] @ ys") auto
  with Suc show ?case by simp
qed

lemma ToUID_eq:
  "ToUID Sprint params =
     hyphen_groups (Sprintf_x (md5_Sum
       (concat (replicate (length params) ''-'') @ Join (map Sprint params) ''-'')))"
proof (cases "params = []")
  case True
  then show ?thesis
    by (simp add: ToUID_def hyphen_groups_def Let_def)
next
  case False
  then have "Join (replicate (length params) [] @ map Sprint params) ''-'' =
             concat (replicate (length params) ''-'') @ Join (map Sprint params) ''-''"
    by (intro Join_leading_empty) simp
  then show ?thesis
    by (simp add: ToUID_def hyphen_groups_def fold_append_map Let_def)
qed

lemma replicate_numeral: "replicate (numeral k) x = x # replicate (pred_numeral k) x"
  by (simp add: numeral_eq_Suc)

lemma md5_blocks_numeral:
  "md5_blocks (numeral k) st ws =
     md5_blocks (pred_numeral k) (md5_block st (take 16 ws)) (drop 16 ws)"
  by (simp add: numeral_eq_Suc)

lemma md5_rounds_numeral:
  "md5_rounds (numeral k) i M st = md5_rounds (pred_numeral k) (i + 1) M (md5_round M i st)"
  by (simp add: numeral_eq_Suc)

lemma md5_hyphens_a_b: "Sprintf_x (md5_Sum ''--a-b'') = ''61b712dafd621a614a47f8d26e654571''"
  by (simp add: Sprintf_x_def md5_Sum_def md5_pad_def md5_block_def md5_round_def md5_s_def
      md5_K_def le_bytes_def hex_byte_def Let_def replicate_numeral md5_blocks_numeral
      md5_rounds_numeral)

lemma md5_a_b: "Sprintf_x (md5_Sum ''a-b'') = ''8ca2ed590cf2ea2404f2e67641bcdf50''"
  by (simp add: Sprintf_x_def md5_Sum_def md5_pad_def md5_block_def md5_round_def md5_s_def
      md5_K_def le_bytes_def hex_byte_def Let_def replicate_numeral md5_blocks_numeral
      md5_rounds_numeral)

text \<open>The digest of "abc" from the test suite of RFC 1321.\<close>

lemma md5_test_suite_abc: "Sprintf_x (md5_Sum ''abc'') = ''900150983cd24fb0d6963f7d28e17f72''"
  by (simp add: Sprintf_x_def md5_Sum_def md5_pad_def md5_block_def md5_round_def md5_s_def
      md5_K_def le_bytes_def hex_byte_def Let_def replicate_numeral md5_blocks_numeral
      md5_rounds_numeral)

text \<open>
  C6. On the parameters "a" and "b" the code hashes the five bytes "--a-b": the slice that
  is joined starts with one empty string for each parameter. The identifier that the
  claim describes is the digest of the three bytes "a-b", a different one.
\<close>

theorem ToUID_hashes_leading_separators:
  "ToUID id [''a'', ''b''] = ''61b712da-fd62-1a61-4a47-f8d26e654571'' \<and>
   described_ToUID id [''a'', ''b''] = ''8ca2ed59-0cf2-ea24-04f2-e67641bcdf50'' \<and>
   ToUID id [''a'', ''b''] \<noteq> described_ToUID id [''a'', ''b'']"
proof -
  have a: "ToUID id [''a'', ''b''] = ''61b712da-fd62-1a61-4a47-f8d26e654571''"
    by (simp add: ToUID_eq md5_hyphens_a_b hyphen_groups_def)
  have b: "described_ToUID id [''a'', ''b''] = ''8ca2ed59-0cf2-ea24-04f2-e67641bcdf50''"
    by (simp add: described_ToUID_def md5_a_b hyphen_groups_def)
  show ?thesis
    unfolding a b by simp
qed

end
